theory Spec2Isabelle
  imports Complex_Main "HOL-Library.Sublist"
begin

section \<open>The instrument session of \<^verbatim>\<open>RS_Scope.py\<close>\<close>

text \<open>
  \<^verbatim>\<open>RS_Scopes\<close> is a thin layer over the \<^verbatim>\<open>RsInstrument\<close> driver: every method sends a
  few SCPI commands, polls the instrument and writes a file. The driver, the clock and
  \<^verbatim>\<open>open\<close> are outside the repository, so they are parameters of the model: a record of
  step functions over a state \<open>'d\<close> that stands for the instrument, the connection and
  the clock together. Each method is a function from the world before the call to the
  outcome and the world after it; a method that polls without a bound returns \<open>None\<close>
  when the poll never ends.
\<close>

subsection \<open>Python values, exceptions and formatted strings\<close>

text \<open>
  Numbers are modelled by their value (a Python \<^verbatim>\<open>float\<close> by the real it denotes, so
  rounding and \<^verbatim>\<open>nan\<close> are outside the model). An exception carries its class name and its
  \<^verbatim>\<open>args\<close> tuple. An f-string is kept as its template, with \<^verbatim>\<open>{}\<close> for each hole, and the
  values that fill the holes.
\<close>

datatype pyval = PInt int | PFloat real | PStr string

datatype exn = Exn (ename: string) (args: "pyval list")

type_synonym fstr = "string \<times> pyval list"

text \<open>
  The handlers of the source build their message as \<^verbatim>\<open>'...' + ex.args[0]\<close>. The subscript
  raises IndexError on an empty tuple and the concatenation raises TypeError when the
  first argument is not a string; both leave the handler as a new exception.
\<close>

definition concat_type_error :: "string \<Rightarrow> exn" where
  "concat_type_error ty =
     Exn ''TypeError''
       [PStr (''can only concatenate str (not '' @ [CHR 0x22] @ ty @ [CHR 0x22] @ '') to str'')]"

definition concat_args0 :: "string \<Rightarrow> exn \<Rightarrow> exn + string" where
  "concat_args0 msg ex =
     (case args ex of
        [] \<Rightarrow> Inl (Exn ''IndexError'' [PStr ''tuple index out of range''])
      | PStr s # _ \<Rightarrow> Inr (msg @ s)
      | PInt _ # _ \<Rightarrow> Inl (concat_type_error ''int'')
      | PFloat _ # _ \<Rightarrow> Inl (concat_type_error ''float''))"

text \<open>\<^verbatim>\<open>str(n)\<close> of a natural number and of an integer, in decimal.\<close>

definition digit_char :: "nat \<Rightarrow> char" where
  "digit_char n = ''0123456789'' ! (n mod 10)"

function str_nat :: "nat \<Rightarrow> string" where
  "str_nat n = (if n < 10 then [digit_char n] else str_nat (n div 10) @ [digit_char n])"
  by pat_completeness auto
termination
  by (relation "measure id") auto

declare str_nat.simps [simp del]

lemma str_nat_digit: "n < 10 \<Longrightarrow> str_nat n = [digit_char n]"
  by (subst str_nat.simps) simp

definition str_int :: "int \<Rightarrow> string" where
  "str_int i = (if i < 0 then CHR ''-'' # str_nat (nat (- i)) else str_nat (nat i))"

text \<open>\<^verbatim>\<open>a in b\<close> on strings: \<open>a\<close> occurs in \<open>b\<close> as a contiguous piece.\<close>

fun py_in :: "string \<Rightarrow> string \<Rightarrow> bool" where
  "py_in xs [] = (xs = [])"
| "py_in xs (y # ys) = (prefix xs (y # ys) \<or> py_in xs ys)"

text \<open>
  \<^verbatim>\<open>int(s)\<close> on a string: surrounding whitespace is dropped, a sign may lead, and the rest
  is decimal digits, with single underscores allowed between digits. Anything else raises
  ValueError, whose message ends with the string in quotes. The whitespace characters are
  those of Python among the 256 characters of the model.
\<close>

definition quoted :: "string \<Rightarrow> string" where
  "quoted s = [CHR 0x27] @ s @ [CHR 0x27]"

definition is_space :: "char \<Rightarrow> bool" where
  "is_space c =
     (c \<in> set [CHR '' '', CHR 0x09, CHR 0x0A, CHR 0x0B, CHR 0x0C, CHR 0x0D,
                CHR 0x1C, CHR 0x1D, CHR 0x1E, CHR 0x1F, CHR 0x85, CHR 0xA0])"

definition is_digit :: "char \<Rightarrow> bool" where
  "is_digit c = (c \<in> set ''0123456789'')"

definition digit_val :: "char \<Rightarrow> nat" where
  "digit_val c = of_char c - 48"

fun digits_after :: "nat \<Rightarrow> string \<Rightarrow> nat option" where
  "digits_after acc [] = Some acc"
| "digits_after acc [c] = (if is_digit c then Some (10 * acc + digit_val c) else None)"
| "digits_after acc (c # d # cs) =
     (if is_digit c then digits_after (10 * acc + digit_val c) (d # cs)
      else if c = CHR ''_'' \<and> is_digit d then digits_after (10 * acc + digit_val d) cs
      else None)"

definition digits :: "string \<Rightarrow> nat option" where
  "digits s = (case s of [] \<Rightarrow> None
                | c # cs \<Rightarrow> if is_digit c then digits_after (digit_val c) cs else None)"

definition strip :: "string \<Rightarrow> string" where
  "strip s = rev (dropWhile is_space (rev (dropWhile is_space s)))"

definition py_int :: "string \<Rightarrow> exn + int" where
  "py_int s =
     (let t = strip s;
          r = (case t of
                 [] \<Rightarrow> None
               | c # cs \<Rightarrow>
                   if c = CHR ''-'' then map_option (\<lambda>n. - int n) (digits cs)
                   else if c = CHR ''+'' then map_option int (digits cs)
                   else map_option int (digits t))
      in case r of
           None \<Rightarrow> Inl (Exn ''ValueError''
                       [PStr (''invalid literal for int() with base 10: '' @ quoted s)])
         | Some i \<Rightarrow> Inr i)"

subsection \<open>The session object, the driver and the world\<close>

text \<open>
  \<^verbatim>\<open>self.channels\<close> is a list after construction, but the caller may assign a bare
  number; \<^verbatim>\<open>channel_select\<close> wraps it in a list. The attributes set inside the \<^verbatim>\<open>try\<close> of
  the constructor exist only when the session opened, so they are optional.
\<close>

datatype chans = Single int | ChanList "int list"

record session =
  visa_timeout :: "real option"
  opc_timeout :: "real option"
  acquisition_timeout :: "real option"
  instrument_status_checking :: "bool option"
  channels :: chans
  instr_path :: string
  path :: string
  folder :: "string option"
  fname :: string
  file_format :: string
  screenshot_format :: string
  verbose :: bool
  save :: bool

text \<open>
  The driver: what each call of \<^verbatim>\<open>RsInstrument\<close> answers in a state of the instrument,
  and the state after it. \<open>d_now\<close> reads the clock (\<^verbatim>\<open>time()\<close>), \<open>d_sleep\<close> is \<^verbatim>\<open>sleep\<close>,
  \<open>d_open_w\<close> says whether \<^verbatim>\<open>open(path, 'w')\<close> raises and \<open>d_min_version\<close> whether
  \<^verbatim>\<open>assert_minimum_version\<close> does.
\<close>

record 'd driver =
  d_min_version :: "exn option"
  d_open :: "string \<Rightarrow> 'd \<Rightarrow> exn option \<times> 'd"
  d_clear_status :: "'d \<Rightarrow> exn option \<times> 'd"
  d_reset :: "'d \<Rightarrow> exn option \<times> 'd"
  d_write :: "fstr \<Rightarrow> 'd \<Rightarrow> exn option \<times> 'd"
  d_query :: "fstr \<Rightarrow> 'd \<Rightarrow> (exn + string) \<times> 'd"
  d_query_opc :: "'d \<Rightarrow> (exn + bool) \<times> 'd"
  d_query_floats :: "fstr \<Rightarrow> 'd \<Rightarrow> (exn + real list) \<times> 'd"
  d_now :: "'d \<Rightarrow> real"
  d_sleep :: "real \<Rightarrow> 'd \<Rightarrow> 'd"
  d_open_w :: "string \<Rightarrow> 'd \<Rightarrow> exn option"

text \<open>
  A CSV file is the rows written to it. The trace records, in order, every command
  passed to \<^verbatim>\<open>write_str\<close>, every line printed and every file written.
\<close>

datatype row = Header "string list" | Data "real list"

datatype event = Sent fstr | Printed fstr | Saved string

record 'd world =
  dev :: 'd
  self :: session
  files :: "(string \<times> row list) list"
  trace :: "event list"

type_synonym ('a, 'd) outcome = "(exn + 'a) \<times> 'd world"

subsection \<open>Sequencing\<close>

text \<open>
  A statement that raises ends the block it is in; \<open>and_then\<close> is the semicolon of the
  source and \<open>try_except\<close> its \<^verbatim>\<open>try: ... except Exception as ex: ...\<close>.
\<close>

definition and_then ::
  "('a, 'd) outcome option \<Rightarrow> ('a \<Rightarrow> 'd world \<Rightarrow> ('b, 'd) outcome option) \<Rightarrow> ('b, 'd) outcome option"
where
  "and_then m f =
     (case m of
        None \<Rightarrow> None
      | Some (r, w) \<Rightarrow> (case r of Inl e \<Rightarrow> Some (Inl e, w) | Inr x \<Rightarrow> f x w))"

definition try_except ::
  "('a, 'd) outcome option \<Rightarrow> (exn \<Rightarrow> 'd world \<Rightarrow> ('a, 'd) outcome option) \<Rightarrow> ('a, 'd) outcome option"
where
  "try_except m h =
     (case m of
        None \<Rightarrow> None
      | Some (r, w) \<Rightarrow> (case r of Inl e \<Rightarrow> h e w | Inr x \<Rightarrow> Some (Inr x, w)))"

definition return :: "'a \<Rightarrow> 'd world \<Rightarrow> ('a, 'd) outcome option" where
  "return x w = Some (Inr x, w)"

definition raise :: "exn \<Rightarrow> 'd world \<Rightarrow> ('a, 'd) outcome option" where
  "raise e w = Some (Inl e, w)"

text \<open>\<^verbatim>\<open>print('...' + ex.args[0])\<close>, the body of most handlers.\<close>

definition print :: "fstr \<Rightarrow> 'd world \<Rightarrow> 'd world" where
  "print m w = w\<lparr>trace := trace w @ [Printed m]\<rparr>"

definition print_args0 :: "string \<Rightarrow> exn \<Rightarrow> 'd world \<Rightarrow> (unit, 'd) outcome option" where
  "print_args0 msg ex w =
     (case concat_args0 msg ex of
        Inl e \<Rightarrow> raise e w
      | Inr s \<Rightarrow> return () (print (s, []) w))"

subsection \<open>The calls into the driver\<close>

definition sleep :: "'d driver \<Rightarrow> real \<Rightarrow> 'd world \<Rightarrow> 'd world" where
  "sleep drv t w = w\<lparr>dev := d_sleep drv t (dev w)\<rparr>"

definition time_now :: "'d driver \<Rightarrow> 'd world \<Rightarrow> real" where
  "time_now drv w = d_now drv (dev w)"

definition write_str :: "'d driver \<Rightarrow> fstr \<Rightarrow> 'd world \<Rightarrow> (unit, 'd) outcome option" where
  "write_str drv c w =
     (case d_write drv c (dev w) of
        (r, d') \<Rightarrow>
          Some (case r of Some e \<Rightarrow> Inl e | None \<Rightarrow> Inr (),
                w\<lparr>dev := d', trace := trace w @ [Sent c]\<rparr>))"

definition query_str :: "'d driver \<Rightarrow> fstr \<Rightarrow> 'd world \<Rightarrow> (string, 'd) outcome option" where
  "query_str drv c w = (case d_query drv c (dev w) of (r, d') \<Rightarrow> Some (r, w\<lparr>dev := d'\<rparr>))"

text \<open>\<^verbatim>\<open>RsInstrument.query\<close> is the driver's alias of \<^verbatim>\<open>query_str\<close>.\<close>

definition query :: "'d driver \<Rightarrow> fstr \<Rightarrow> 'd world \<Rightarrow> (string, 'd) outcome option" where
  "query drv c w = query_str drv c w"

definition query_opc :: "'d driver \<Rightarrow> 'd world \<Rightarrow> (bool, 'd) outcome option" where
  "query_opc drv w = (case d_query_opc drv (dev w) of (r, d') \<Rightarrow> Some (r, w\<lparr>dev := d'\<rparr>))"

definition query_bin_or_ascii_float_list ::
  "'d driver \<Rightarrow> fstr \<Rightarrow> 'd world \<Rightarrow> (real list, 'd) outcome option"
where
  "query_bin_or_ascii_float_list drv c w =
     (case d_query_floats drv c (dev w) of (r, d') \<Rightarrow> Some (r, w\<lparr>dev := d'\<rparr>))"

definition clear_status :: "'d driver \<Rightarrow> 'd world \<Rightarrow> (unit, 'd) outcome option" where
  "clear_status drv w =
     (case d_clear_status drv (dev w) of
        (r, d') \<Rightarrow> Some (case r of Some e \<Rightarrow> Inl e | None \<Rightarrow> Inr (), w\<lparr>dev := d'\<rparr>))"

definition reset :: "'d driver \<Rightarrow> 'd world \<Rightarrow> (unit, 'd) outcome option" where
  "reset drv w =
     (case d_reset drv (dev w) of
        (r, d') \<Rightarrow> Some (case r of Some e \<Rightarrow> Inl e | None \<Rightarrow> Inr (), w\<lparr>dev := d'\<rparr>))"

text \<open>Reading an attribute that the constructor never set raises AttributeError.\<close>

definition attribute_error :: "string \<Rightarrow> exn" where
  "attribute_error a =
     Exn ''AttributeError''
       [PStr (quoted ''RS_Scopes'' @ '' object has no attribute '' @ quoted a)]"

subsection \<open>\<^verbatim>\<open>check_file_exists\<close> and \<^verbatim>\<open>write_file\<close>\<close>

definition isfile :: "(string \<times> row list) list \<Rightarrow> string \<Rightarrow> bool" where
  "isfile fs p = (p \<in> set (map fst fs))"

definition longest :: "(string \<times> row list) list \<Rightarrow> nat" where
  "longest fs = foldr (\<lambda>e n. max (length (fst e)) n) fs 0"

lemma isfile_longest: "isfile fs p \<Longrightarrow> length p \<le> longest fs"
proof (induction fs)
  case Nil
  then show ?case by (simp add: isfile_def)
next
  case (Cons e fs)
  show ?case
  proof (cases "p = fst e")
    case True
    then show ?thesis by (simp add: longest_def)
  next
    case False
    with Cons.prems have "isfile fs p" by (simp add: isfile_def)
    then have "length p \<le> longest fs" by (rule Cons.IH)
    then show ?thesis by (simp add: longest_def le_max_iff_disj)
  qed
qed

text \<open>
  \<open>base_name\<close> is the \<^verbatim>\<open>save_file\<close> the method starts from (\<^verbatim>\<open>if self.folder\<close> holds for a
  folder that is neither \<^verbatim>\<open>None\<close> nor empty). The \<^verbatim>\<open>while check\<close> loop: as long as \<^verbatim>\<open>save_file.format\<close> names a file, the marker is
  appended to \<^verbatim>\<open>save_file\<close> and the test is made again. Only finitely many files exist,
  and the name grows at every turn, so the loop ends.
\<close>

function copy_loop :: "(string \<times> row list) list \<Rightarrow> string \<Rightarrow> string \<Rightarrow> string" where
  "copy_loop fs format save_file =
     (if isfile fs (save_file @ ''.'' @ format)
      then copy_loop fs format (save_file @ ''-(copy)'')
      else save_file @ ''.'' @ format)"
  by pat_completeness auto
termination
proof (relation "measure (\<lambda>(fs, format, save_file). Suc (longest fs) - length save_file)")
  show "wf (measure (\<lambda>(fs, format, save_file). Suc (longest fs) - length save_file))"
    by simp
next
  fix fs :: "(string \<times> row list) list" and format save_file :: string
  assume "isfile fs (save_file @ ''.'' @ format)"
  then have "length (save_file @ ''.'' @ format) \<le> longest fs"
    by (rule isfile_longest)
  then show "((fs, format, save_file @ ''-(copy)''), (fs, format, save_file))
      \<in> measure (\<lambda>(fs, format, save_file). Suc (longest fs) - length save_file)"
    by simp
qed

declare copy_loop.simps [simp del]

definition base_name :: "session \<Rightarrow> string" where
  "base_name s =
     (case folder s of
        Some f \<Rightarrow> if f \<noteq> [] then path s @ f @ fname s else path s @ fname s
      | None \<Rightarrow> path s @ fname s)"

definition check_file_exists :: "string \<Rightarrow> 'd world \<Rightarrow> string \<times> 'd world" where
  "check_file_exists format w =
     (let save_file = copy_loop (files w) format (base_name (self w))
      in (save_file,
          if verbose (self w) then print (''Saving file as '' @ save_file, []) w else w))"

text \<open>\<^verbatim>\<open>open(save_file, 'w')\<close> replaces whatever the path held before.\<close>

definition fs_write :: "string \<Rightarrow> row list \<Rightarrow> (string \<times> row list) list \<Rightarrow> (string \<times> row list) list" where
  "fs_write p rows fs = (p, rows) # filter (\<lambda>e. fst e \<noteq> p) fs"

definition write_file ::
  "'d driver \<Rightarrow> real list list \<Rightarrow> string list \<Rightarrow> 'd world \<Rightarrow> (unit, 'd) outcome option"
where
  "write_file drv channel_data field_headers w =
     (case check_file_exists (file_format (self w)) w of
        (save_file, w1) \<Rightarrow>
          (case d_open_w drv save_file (dev w1) of
             Some e \<Rightarrow> raise e w1
           | None \<Rightarrow>
               let rows = (if field_headers \<noteq> [] then [Header field_headers] else [])
                            @ map Data channel_data;
                   w2 = w1\<lparr>files := fs_write save_file rows (files w1),
                           trace := trace w1 @ [Saved save_file]\<rparr>
               in return ()
                    (if verbose (self w2)
                     then print (''Save successful! File                   {}.{}                     saved in {}.'',
                                 [PStr (fname (self w2)), PStr (file_format (self w2)),
                                  PStr (path (self w2))]) w2
                     else w2)))"

subsection \<open>\<^verbatim>\<open>opc_check\<close> and \<^verbatim>\<open>channel_select\<close>\<close>

text \<open>
  \<^verbatim>\<open>opc_check\<close> polls \<^verbatim>\<open>query_opc\<close> every 0.1 s and gives up, with a message, once the time
  since its start exceeds \<^verbatim>\<open>self.opc_timeout\<close>.
\<close>

partial_function (option) opc_loop ::
  "'d driver \<Rightarrow> real \<Rightarrow> 'd world \<Rightarrow> (unit, 'd) outcome option"
where
  "opc_loop drv start_time w =
     (case query_opc drv w of
        None \<Rightarrow> None
      | Some (r, w1) \<Rightarrow>
          (case r of
             Inl e \<Rightarrow> Some (Inl e, w1)
           | Inr ready \<Rightarrow>
               if ready then Some (Inr (), w1)
               else (case opc_timeout (self w1) of
                       None \<Rightarrow> Some (Inl (attribute_error ''opc_timeout''), w1)
                     | Some t \<Rightarrow>
                         if time_now drv w1 - start_time > t
                         then Some (Inr (), print (''OPC timeout.'', []) w1)
                         else opc_loop drv start_time (sleep drv (1 / 10) w1))))"

definition opc_check :: "'d driver \<Rightarrow> 'd world \<Rightarrow> (unit, 'd) outcome option" where
  "opc_check drv w = opc_loop drv (time_now drv w) w"

fun select_loop :: "'d driver \<Rightarrow> int list \<Rightarrow> 'd world \<Rightarrow> (unit, 'd) outcome option" where
  "select_loop drv [] w = return () w"
| "select_loop drv (channel # rest) w =
     and_then (write_str drv (''CHAN{}:STAT ON'', [PInt channel]) w) (\<lambda>_ w1.
     and_then (opc_check drv w1) (\<lambda>_ w2.
     select_loop drv rest w2))"

definition channel_select :: "'d driver \<Rightarrow> 'd world \<Rightarrow> (unit, 'd) outcome option" where
  "channel_select drv w =
     and_then (write_str drv (''CHAN:AOFF'', []) w) (\<lambda>_ w1.
       case channels (self w1) of
         Single c \<Rightarrow> select_loop drv [c] (w1\<lparr>self := (self w1)\<lparr>channels := ChanList [c]\<rparr>\<rparr>)
       | ChanList cs \<Rightarrow> select_loop drv cs w1)"

subsection \<open>\<^verbatim>\<open>query_data\<close> and \<^verbatim>\<open>query_time\<close>\<close>

text \<open>
  \<^verbatim>\<open>query_data\<close> returns the samples, or \<^verbatim>\<open>False\<close> (here \<open>None\<close>) after an exception of the
  query or of \<^verbatim>\<open>opc_check\<close>; its handler prints \<^verbatim>\<open>'Exception raised: ' + ex.args[0]\<close>.
\<close>

definition query_data ::
  "'d driver \<Rightarrow> int \<Rightarrow> 'd world \<Rightarrow> (real list option, 'd) outcome option"
where
  "query_data drv channel w =
     try_except
       (and_then (query_bin_or_ascii_float_list drv (''CHAN{}:DATA?'', [PInt channel]) w)
          (\<lambda>chan_data w1.
       and_then (opc_check drv w1) (\<lambda>_ w2.
       return (Some chan_data) w2)))
       (\<lambda>ex w1.
          and_then
            (print_args0 ''Exception raised: '' ex
               (print (''Channel {} unavailable. Please check connection\<newline>'', [PInt channel]) w1))
            (\<lambda>_ w2. return None w2))"

text \<open>
  \<^verbatim>\<open>int(x)\<close> of a float cuts the fraction off. \<^verbatim>\<open>numpy.linspace(a, b, n)\<close> gives \<open>n\<close> evenly
  spaced values from \<open>a\<close> to \<open>b\<close>, and raises ValueError for a negative \<open>n\<close>.
\<close>

definition int_of_float :: "real \<Rightarrow> int" where
  "int_of_float x = (if 0 \<le> x then \<lfloor>x\<rfloor> else \<lceil>x\<rceil>)"

definition linspace :: "real \<Rightarrow> real \<Rightarrow> int \<Rightarrow> exn + real list" where
  "linspace a b n =
     (if n < 0
      then Inl (Exn ''ValueError''
                  [PStr (''Number of samples, '' @ str_int n @ '', must be non-negative.'')])
      else if n = 1 then Inr [a]
      else Inr (map (\<lambda>i. a + real i * ((b - a) / real (nat n - 1))) [0..<nat n]))"

text \<open>
  The handler of \<^verbatim>\<open>query_time\<close> sets \<^verbatim>\<open>time_data = False\<close>, prints, and then evaluates
  \<^verbatim>\<open>'Exception raised: ' + ex\<close> with the exception itself: a TypeError that names the
  exception's class leaves the method, so \<^verbatim>\<open>False\<close> is never returned.
\<close>

definition query_time :: "'d driver \<Rightarrow> int \<Rightarrow> 'd world \<Rightarrow> (real list, 'd) outcome option" where
  "query_time drv channel w =
     try_except
       (and_then (query_bin_or_ascii_float_list drv (''CHAN{}:DATA:HEAD?'', [PInt channel]) w)
          (\<lambda>chan_data w1.
       and_then (opc_check drv w1) (\<lambda>_ w2.
         case chan_data of
           a # b # n # _ \<Rightarrow>
             (case linspace a b (int_of_float n) of
                Inl e \<Rightarrow> raise e w2
              | Inr time_data \<Rightarrow> return time_data w2)
         | _ \<Rightarrow> raise (Exn ''IndexError'' [PStr ''list index out of range'']) w2)))
       (\<lambda>ex w1.
          raise (concat_type_error (ename ex))
            (print (''Channel {} unavailable!                   Please check connection\<newline>'',
                    [PInt channel]) w1))"

subsection \<open>\<^verbatim>\<open>save_channels\<close> and \<^verbatim>\<open>save_history\<close>\<close>

text \<open>\<^verbatim>\<open>zip(time_data, *cols)\<close>: one row per index that every sequence has.\<close>

definition py_zip :: "'a list \<Rightarrow> 'a list list \<Rightarrow> 'a list list" where
  "py_zip xs cols =
     map (\<lambda>i. xs ! i # map (\<lambda>c. c ! i) cols)
       [0..<foldr (\<lambda>c n. min (length c) n) cols (length xs)]"

text \<open>\<^verbatim>\<open>self.channels[0]\<close>.\<close>

definition channels0 :: "'d world \<Rightarrow> (int, 'd) outcome option" where
  "channels0 w =
     (case channels (self w) of
        Single c \<Rightarrow>
          raise (Exn ''TypeError''
                   [PStr (quoted ''int'' @ '' object is not subscriptable'')]) w
      | ChanList [] \<Rightarrow> raise (Exn ''IndexError'' [PStr ''list index out of range'']) w
      | ChanList (c # _) \<Rightarrow> return c w)"

text \<open>\<^verbatim>\<open>while not self.query_opc(): sleep(0.1)\<close>, with no bound.\<close>

partial_function (option) opc_wait :: "'d driver \<Rightarrow> 'd world \<Rightarrow> (unit, 'd) outcome option" where
  "opc_wait drv w =
     (case query_opc drv w of
        None \<Rightarrow> None
      | Some (r, w1) \<Rightarrow>
          (case r of
             Inl e \<Rightarrow> Some (Inl e, w1)
           | Inr ready \<Rightarrow>
               if ready then Some (Inr (), w1) else opc_wait drv (sleep drv (1 / 10) w1)))"

text \<open>The \<^verbatim>\<open>for channel in self.channels\<close> loop of \<^verbatim>\<open>save_channels\<close>.\<close>

fun collect ::
  "'d driver \<Rightarrow> int list \<Rightarrow> string list \<Rightarrow> real list list \<Rightarrow> 'd world
     \<Rightarrow> (string list \<times> real list list, 'd) outcome option"
where
  "collect drv [] headers cols w = return (headers, cols) w"
| "collect drv (channel # rest) headers cols w =
     and_then (query_data drv channel w) (\<lambda>data w1.
     and_then (opc_wait drv w1) (\<lambda>_ w2.
     collect drv rest (headers @ [''C_'' @ str_int channel @ '' (V)''])
       (case data of
          Some xs \<Rightarrow> if xs \<noteq> [] then cols @ [xs] else cols
        | None \<Rightarrow> cols) w2))"

definition save_channels :: "'d driver \<Rightarrow> 'd world \<Rightarrow> (unit, 'd) outcome option" where
  "save_channels drv w =
     (let start = time_now drv w in
      and_then (channels0 w) (\<lambda>c0 w0.
      and_then (query_time drv c0 w0) (\<lambda>time_data w1.
      and_then
        (case channels (self w1) of
           Single c \<Rightarrow>
             raise (Exn ''TypeError''
                      [PStr (quoted ''int'' @ '' object is not iterable'')]) w1
         | ChanList cs \<Rightarrow> collect drv cs [''time (s)''] [] w1) (\<lambda>(headers, cols) w2.
      and_then (write_file drv (py_zip time_data cols) headers w2) (\<lambda>_ w3.
      return ()
        (if verbose (self w3)
         then print (''file save in {}s'', [PFloat (time_now drv w3 - start)]) w3
         else w3))))))"

text \<open>The \<^verbatim>\<open>for i in range(...)\<close> loop of \<^verbatim>\<open>save_history\<close>.\<close>

fun history_loop :: "'d driver \<Rightarrow> nat list \<Rightarrow> 'd world \<Rightarrow> (unit, 'd) outcome option" where
  "history_loop drv [] w = return () w"
| "history_loop drv (i # rest) w =
     and_then (channels0 w) (\<lambda>c0 w0.
     and_then (write_str drv (''CHAN{}:HIST:CURR {}'', [PInt c0, PInt (int i + 1)]) w0) (\<lambda>_ w1.
     and_then (opc_check drv w1) (\<lambda>_ w2.
     and_then
       (save_channels drv (w2\<lparr>self := (self w2)\<lparr>fname := fname (self w2) @ str_nat (i + 1)\<rparr>\<rparr>))
       (\<lambda>_ w3.
     history_loop drv rest w3))))"

definition save_history :: "'d driver \<Rightarrow> 'd world \<Rightarrow> (unit, 'd) outcome option" where
  "save_history drv w =
     try_except
       (and_then (query_str drv (''ACQ:AVA?'', []) w) (\<lambda>available w1.
          case py_int available of
            Inl e \<Rightarrow> raise e w1
          | Inr k \<Rightarrow> history_loop drv [0..<nat k] w1))
       (\<lambda>ex w1. print_args0 ''An error occured!'' ex w1)"

subsection \<open>\<^verbatim>\<open>average\<close>\<close>

text \<open>
  The wait loop of \<^verbatim>\<open>average\<close>: it leaves by the loop condition when the instrument
  answers \<^verbatim>\<open>'1'\<close>, and by \<^verbatim>\<open>break\<close> once the time since \<open>start_time\<close> exceeds
  \<^verbatim>\<open>self.acquisition_timeout\<close>.
\<close>

partial_function (option) average_loop ::
  "'d driver \<Rightarrow> real \<Rightarrow> 'd world \<Rightarrow> (unit, 'd) outcome option"
where
  "average_loop drv start_time w =
     (case query drv (''ACQ:AVER:COMP?'', []) w of
        None \<Rightarrow> None
      | Some (r, w1) \<Rightarrow>
          (case r of
             Inl e \<Rightarrow> Some (Inl e, w1)
           | Inr answer \<Rightarrow>
               if answer \<noteq> ''1''
               then (case acquisition_timeout (self w1) of
                       None \<Rightarrow> Some (Inl (attribute_error ''acquisition_timeout''), w1)
                     | Some t \<Rightarrow>
                         if time_now drv w1 - start_time > t
                         then Some (Inr (), print (''Average acquisition timeout.'', []) w1)
                         else average_loop drv start_time
                                (sleep drv 1
                                   (if verbose (self w1) then print (''Acquiring...'', []) w1
                                    else w1)))
               else Some (Inr (), w1)))"

definition average :: "'d driver \<Rightarrow> int \<Rightarrow> 'd world \<Rightarrow> (bool, 'd) outcome option" where
  "average drv N w =
     (let start_time = time_now drv w in
      try_except
        (and_then (write_str drv (''ACQ:TYPE AVER'', []) w) (\<lambda>_ w1.
         and_then (write_str drv (''ACQ:AVER:RES'', []) w1) (\<lambda>_ w2.
         and_then (write_str drv (''ACQ:NSIN:COUN {}'', [PInt 1]) w2) (\<lambda>_ w3.
         and_then (write_str drv (''ACQ:AVER:COUN {}'', [PInt N]) w3) (\<lambda>_ w4.
         and_then (write_str drv (''RUN'', []) w4) (\<lambda>_ w5.
         and_then (average_loop drv start_time w5) (\<lambda>_ w6.
         and_then (write_str drv (''STOP'', []) w6) (\<lambda>_ w7.
         return True w7))))))))
        (\<lambda>ex w1.
           and_then
             (print_args0 ''An error occured while acquiring                   the data \<newline>'' ex w1)
             (\<lambda>_ w2. return False w2)))"

subsection \<open>\<^verbatim>\<open>calibration\<close>\<close>

partial_function (option) calibration_loop ::
  "'d driver \<Rightarrow> 'd world \<Rightarrow> (unit, 'd) outcome option"
where
  "calibration_loop drv w =
     (case query_str drv (''CAL:STAT?'', []) w of
        None \<Rightarrow> None
      | Some (r, w1) \<Rightarrow>
          (case r of
             Inl e \<Rightarrow> Some (Inl e, w1)
           | Inr status \<Rightarrow>
               if status = ''RUN''
               then calibration_loop drv
                      (sleep drv 10
                         (print (''Instrument calibration in progress - please wait...'', []) w1))
               else Some (Inr (), w1)))"

definition calibration :: "'d driver \<Rightarrow> 'd world \<Rightarrow> (unit, 'd) outcome option" where
  "calibration drv w =
     try_except
       (and_then (write_str drv (''CAL'', []) w) (\<lambda>_ w1.
        and_then (calibration_loop drv w1) (\<lambda>_ w2.
        and_then (query drv (''CAL:SAT?'', []) w2) (\<lambda>sat w3.
          if sat = ''OK'' then return () (print (''Self-alignment succesful!'', []) w3)
          else
            and_then (query_str drv (''CAL:STAT?'', []) w3) (\<lambda>stat w4.
              if stat = ''ERR''
              then return () (print (''An error occured while calibrating.'', []) w4)
              else
                and_then (query_str drv (''CAL:STAT?'', []) w4) (\<lambda>stat2 w5.
                  if stat2 = ''ABOR'' then return () (print (''Calibration aborted.'', []) w5)
                  else return () w5))))))
       (\<lambda>ex w1.
          print_args0 ''Error with instrument                   self-alignment\<newline>'' ex w1)"

subsection \<open>\<^verbatim>\<open>acquire\<close>\<close>

text \<open>
  \<^verbatim>\<open>acquire\<close> in the blocks of its \<^verbatim>\<open>try\<close>: \<open>acquire_setup\<close> is lines 118 to 133 (channels,
  segmentation, record length), \<open>acquire_arm\<close> lines 138 to 150 (the count and the start of
  a single or multi-single run; it returns the \<^verbatim>\<open>hist\<close> flag), \<open>acquire_poll\<close> the loop of
  lines 151 to 154, \<open>acquire_body\<close> the whole \<^verbatim>\<open>try\<close>, and \<open>acquire\<close> the method with its
  handler.
\<close>

definition check_hist_values ::
  "'d driver \<Rightarrow> 'd world \<Rightarrow> (string \<times> string, 'd) outcome option"
where
  "check_hist_values drv w =
     and_then (query drv (''ACQ:POIN?'', []) w) (\<lambda>record_length w1.
     and_then (query drv (''ACQ:COUN?'', []) w1) (\<lambda>max_segments w2.
     return (record_length, max_segments) w2))"

definition acquire_setup ::
  "'d driver \<Rightarrow> bool \<Rightarrow> real \<Rightarrow> 'd world \<Rightarrow> (unit, 'd) outcome option"
where
  "acquire_setup drv auto rec_length w =
     and_then (channel_select drv w) (\<lambda>_ w1.
     and_then (write_str drv (''ACQ:SEGM:STAT ON'', []) w1) (\<lambda>_ w2.
       if auto then write_str drv (''ACQ:POIN:AUT ON'', []) w2
       else
         and_then (write_str drv (''ACQ:POIN:AUT OFF'', []) w2) (\<lambda>_ w3.
         and_then (write_str drv (''ACQ:MEM DMEM'', []) w3) (\<lambda>_ w4.
           if rec_length > 40000000
           then write_str drv (''ACQ:POIN {}'', [PFloat 40000000])
                  (print (''Maximum record length exceeded.                          Setting to maximum: 40MSa'', []) w4)
           else if rec_length < 5000
           then write_str drv (''ACQ:POIN {}'', [PFloat 5000])
                  (print (''Minimum record length exceeded.                          Setting to minimum: 5kSa'', []) w4)
           else write_str drv (''ACQ:POIN {}'', [PFloat rec_length]) w4))))"

definition acquire_arm ::
  "'d driver \<Rightarrow> string \<Rightarrow> int \<Rightarrow> 'd world \<Rightarrow> (bool, 'd) outcome option"
where
  "acquire_arm drv mode N w =
     and_then (check_hist_values drv w) (\<lambda>(_, max_segments) w1.
       case py_int max_segments of
         Inl e \<Rightarrow> raise e w1
       | Inr m \<Rightarrow>
           and_then
             (if N > m
              then return m
                     (if verbose (self w1)
                      then print (''Number of segments exceeds max segments.                               Setting samples (N) to {}'',
                                  [PInt m]) w1
                      else w1)
              else return N w1) (\<lambda>N1 w2.
           and_then (write_str drv (''ACQ:TYPE REFR'', []) w2) (\<lambda>_ w3.
           and_then
             (if py_in ''NSING'' mode
              then and_then (write_str drv (''ACQ:NSIN:COUN {}'', [PInt N1]) w3)
                     (\<lambda>_ w4. return True w4)
              else and_then (write_str drv (''ACQ:NSIN:COUN {}'', [PInt 1]) w3)
                     (\<lambda>_ w4. return False w4)) (\<lambda>hist w5.
           and_then (write_str drv (''RUNS'', []) w5) (\<lambda>_ w6.
           return hist w6)))))"

partial_function (option) acquire_poll ::
  "'d driver \<Rightarrow> 'd world \<Rightarrow> (unit, 'd) outcome option"
where
  "acquire_poll drv w =
     (case query drv (''ACQ:STAT?'', []) w of
        None \<Rightarrow> None
      | Some (r, w1) \<Rightarrow>
          (case r of
             Inl e \<Rightarrow> Some (Inl e, w1)
           | Inr status \<Rightarrow>
               if status \<noteq> ''COMP''
               then acquire_poll drv
                      (if verbose (self w1) then print (''Acquiring...'', []) (sleep drv 1 w1)
                       else sleep drv 1 w1)
               else Some (Inr (), w1)))"

definition acquire_body ::
  "'d driver \<Rightarrow> string \<Rightarrow> int \<Rightarrow> bool \<Rightarrow> real \<Rightarrow> 'd world \<Rightarrow> (unit, 'd) outcome option"
where
  "acquire_body drv mode N auto rec_length w =
     and_then (acquire_setup drv auto rec_length w) (\<lambda>_ w1.
     and_then
       (if py_in ''AVER'' mode
        then and_then (average drv N w1) (\<lambda>_ w2. return False w2)
        else and_then (acquire_arm drv mode N w1) (\<lambda>hist w2.
             and_then (acquire_poll drv w2) (\<lambda>_ w3. return hist w3))) (\<lambda>hist w4.
       if save (self w4)
       then (if hist then save_history drv w4 else save_channels drv w4)
       else return () w4))"

definition acquire ::
  "'d driver \<Rightarrow> string \<Rightarrow> int \<Rightarrow> bool \<Rightarrow> real \<Rightarrow> 'd world \<Rightarrow> (bool, 'd) outcome option"
where
  "acquire drv mode N auto rec_length w =
     try_except
       (and_then (acquire_body drv mode N auto rec_length w) (\<lambda>_ w1. return True w1))
       (\<lambda>ex w1.
          and_then (print_args0 ''Error while acquiring data'' ex w1)
            (\<lambda>_ w2. return False w2))"

subsection \<open>The constructor\<close>

text \<open>
  \<^verbatim>\<open>resource_str\<close> stays unbound for a mode that is none of the three, and then the first
  statement of the \<^verbatim>\<open>try\<close> raises UnboundLocalError. \<^verbatim>\<open>clear_status\<close>, \<^verbatim>\<open>reset\<close> and
  \<^verbatim>\<open>write_str('CHAN:AON')\<close> come after the \<^verbatim>\<open>try\<close> statement, outside any handler.
  \<open>dropbox\<close> is \<^verbatim>\<open>dir.dropbox\<close> of the directory helper, which is not part of the sources.
\<close>

definition resource_str :: "string \<Rightarrow> string \<Rightarrow> string option" where
  "resource_str address mode =
     (if mode = ''hiLAN'' then Some (''TCPIP::'' @ address @ ''::hislip0'')
      else if mode = ''LAN'' then Some (''TCPIP::'' @ address @ ''::INSTR'')
      else if mode = ''USB'' then Some (''USB::'' @ address @ ''::INSTR'')
      else None)"

definition open_session :: "'d driver \<Rightarrow> string \<Rightarrow> 'd world \<Rightarrow> (unit, 'd) outcome option" where
  "open_session drv r w =
     (case d_open drv r (dev w) of
        (res, d') \<Rightarrow> Some (case res of Some e \<Rightarrow> Inl e | None \<Rightarrow> Inr (), w\<lparr>dev := d'\<rparr>))"

definition unset_session :: session where
  "unset_session =
     \<lparr>visa_timeout = None, opc_timeout = None, acquisition_timeout = None,
      instrument_status_checking = None, channels = ChanList [], instr_path = [],
      path = [], folder = None, fname = [], file_format = [], screenshot_format = [],
      verbose = False, save = False\<rparr>"

definition init ::
  "'d driver \<Rightarrow> string \<Rightarrow> string \<Rightarrow> bool \<Rightarrow> string \<Rightarrow> 'd world \<Rightarrow> (unit, 'd) outcome option"
where
  "init drv address mode verbose_arg dropbox w =
     (case d_min_version drv of
        Some e \<Rightarrow> raise e w
      | None \<Rightarrow>
          let w0 = (if resource_str address mode = None
                    then print (''Invalid mode\<newline> Please enter either: '' @ quoted ''hiLAN'' @ '', ''
                                  @ quoted ''LAN'' @ '' or '' @ quoted ''USB'' @ ''\<newline> '', []) w
                    else w)\<lparr>self := unset_session\<rparr>
          in
          and_then
            (try_except
               (and_then
                  (case resource_str address mode of
                     None \<Rightarrow>
                       raise (Exn ''UnboundLocalError''
                                [PStr (''cannot access local variable '' @ quoted ''resource_str''
                                       @ '' where it is not associated with a value'')]) w0
                   | Some r \<Rightarrow> open_session drv r w0) (\<lambda>_ w1.
                let w2 = w1\<lparr>self := (self w1)\<lparr>visa_timeout := Some 6000, opc_timeout := Some 15,
                              acquisition_timeout := Some 10,
                              instrument_status_checking := Some True\<rparr>\<rparr>
                in if verbose_arg
                   then and_then (query_str drv (''SYST:NAME?'', []) w2) (\<lambda>name w3.
                          return () (print (''Connection to instrument {} successful'', [PStr name]) w3))
                   else return () w2))
               (\<lambda>ex w1. print_args0 ''Error initializing the instrument session:\<newline>'' ex w1))
            (\<lambda>_ w4.
          and_then (clear_status drv w4) (\<lambda>_ w5.
          and_then (reset drv w5) (\<lambda>_ w6.
          and_then (write_str drv (''CHAN:AON'', []) w6) (\<lambda>_ w7.
          return ()
            (w7\<lparr>self := (self w7)\<lparr>channels := ChanList [1, 2, 3, 4],
                   instr_path := ''/INT/SCREEN/'', path := dropbox, folder := None,
                   fname := ''file'', file_format := ''csv'', screenshot_format := ''png'',
                   verbose := verbose_arg, save := False\<rparr>\<rparr>))))))"

text \<open>
  \<^verbatim>\<open>screenshot\<close> is not modelled: none of the properties below is about it.
\<close>

section \<open>Concrete instruments and sessions\<close>

text \<open>
  \<open>bench answer samples\<close> is an instrument that accepts every command, answers a string
  query \<open>c\<close> with \<open>answer c\<close> and a waveform query with \<open>samples c\<close>, reports every
  operation complete at once, and whose state is the clock: only \<^verbatim>\<open>sleep\<close> moves it.
  \<open>lab\<close> is a session as the constructor leaves it, with two channels, the directory
  \<^verbatim>\<open>data/\<close> and no file yet.
\<close>

definition bench :: "(fstr \<Rightarrow> exn + string) \<Rightarrow> (fstr \<Rightarrow> exn + real list) \<Rightarrow> real driver" where
  "bench answer samples =
     \<lparr>d_min_version = None,
      d_open = (\<lambda>r d. (None, d)),
      d_clear_status = (\<lambda>d. (None, d)),
      d_reset = (\<lambda>d. (None, d)),
      d_write = (\<lambda>c d. (None, d)),
      d_query = (\<lambda>c d. (answer c, d)),
      d_query_opc = (\<lambda>d. (Inr True, d)),
      d_query_floats = (\<lambda>c d. (samples c, d)),
      d_now = (\<lambda>d. d),
      d_sleep = (\<lambda>t d. d + t),
      d_open_w = (\<lambda>p d. None)\<rparr>"

definition idle_scope :: "real driver" where
  "idle_scope = bench (\<lambda>c. Inr []) (\<lambda>c. Inr [])"

definition lab_session :: session where
  "lab_session =
     \<lparr>visa_timeout = Some 6000, opc_timeout = Some 15, acquisition_timeout = Some 10,
      instrument_status_checking = Some True, channels = ChanList [1, 2],
      instr_path = ''/INT/SCREEN/'', path = ''data/'', folder = None, fname = ''file'',
      file_format = ''csv'', screenshot_format = ''png'', verbose = False, save = False\<rparr>"

definition lab :: "real world" where
  "lab = \<lparr>dev = 0, self = lab_session, files = [], trace = []\<rparr>"

definition two_saved :: "real world" where
  "two_saved = lab\<lparr>files := [(''data/file-(copy).csv'', [Header [''time (s)''], Data [2]]),
                              (''data/file.csv'', [Header [''time (s)''], Data [1]])]\<rparr>"

text \<open>
  \<open>typo_scope\<close> reports the calibration status \<^verbatim>\<open>OK\<close> and, as an instrument does for a
  header it does not know, answers any other query with an error that the driver raises.
  \<open>unreachable_scope\<close> cannot be opened, and, no session existing, \<^verbatim>\<open>clear_status\<close> fails on
  the missing core of the driver object. \<open>flaky_scope\<close> has a valid header on channel 1
  and raises an \<^verbatim>\<open>OSError(5, 'Input/output error')\<close> on the data query of channel 1.
\<close>

definition typo_scope :: "real driver" where
  "typo_scope =
     bench (\<lambda>c. if c = (''CAL:STAT?'', []) then Inr ''OK''
                 else Inl (Exn ''StatusException'' [PStr ''-113,Undefined header'']))
           (\<lambda>c. Inr [])"

definition unreachable_scope :: "real driver" where
  "unreachable_scope =
     (bench (\<lambda>c. Inr []) (\<lambda>c. Inr []))
       \<lparr>d_open := (\<lambda>r d. (Some (Exn ''ResourceError'' [PStr ''No VISA resource found'']), d)),
        d_clear_status := (\<lambda>d. (Some (attribute_error ''_core''), d))\<rparr>"

definition flaky_scope :: "real driver" where
  "flaky_scope =
     bench (\<lambda>c. Inr [])
       (\<lambda>c. if c = (''CHAN{}:DATA:HEAD?'', [PInt 1]) then Inr [0, 1, 3, 1]
             else if c = (''CHAN{}:DATA?'', [PInt 1])
             then Inl (Exn ''OSError'' [PInt 5, PStr ''Input/output error''])
             else Inr [1, 2, 3])"

text \<open>
  \<open>segment_scope\<close> holds at most 4 segments, has 2 of them available, reports every
  acquisition complete, and has channel 2 switched off: its data query is refused.
\<close>

definition segment_scope :: "real driver" where
  "segment_scope =
     bench (\<lambda>c. if c = (''ACQ:COUN?'', []) then Inr ''4''
                 else if c = (''ACQ:AVA?'', []) then Inr ''2''
                 else if c = (''ACQ:STAT?'', []) then Inr ''COMP''
                 else Inr ''5000'')
           (\<lambda>c. if c = (''CHAN{}:DATA:HEAD?'', [PInt 1]) then Inr [0, 1, 3, 1]
                 else if c = (''CHAN{}:DATA?'', [PInt 2])
                 then Inl (Exn ''StatusException'' [PStr ''Channel is off''])
                 else Inr [1, 2, 3])"

text \<open>\<open>averaging_scope\<close> never reports the average complete.\<close>

definition averaging_scope :: "real driver" where
  "averaging_scope = bench (\<lambda>c. Inr ''0'') (\<lambda>c. Inr [])"

text \<open>
  \<open>hollow_scope\<close> answers the data query of channel 1 with an empty list of samples
  and that of any other channel with three.
\<close>

definition hollow_scope :: "real driver" where
  "hollow_scope =
     bench (\<lambda>c. Inr [])
       (\<lambda>c. if c = (''CHAN{}:DATA:HEAD?'', [PInt 1]) then Inr [0, 1, 3, 1]
             else if c = (''CHAN{}:DATA?'', [PInt 1]) then Inr []
             else Inr [1, 2, 3])"


section \<open>Sequencing lemmas\<close>

lemma and_then_simps [simp]:
  "and_then None f = None"
  "and_then (Some (Inl e, w)) f = Some (Inl e, w)"
  "and_then (Some (Inr x, w)) f = f x w"
  by (simp_all add: and_then_def)

lemma try_except_simps [simp]:
  "try_except None h = None"
  "try_except (Some (Inl e, w)) h = h e w"
  "try_except (Some (Inr x, w)) h = Some (Inr x, w)"
  by (simp_all add: try_except_def)

lemmas [simp] = return_def raise_def

section \<open>File names\<close>

lemma copy_loop_free_eq:
  "\<not> isfile fs (b @ ''.'' @ format) \<Longrightarrow> copy_loop fs format b = b @ ''.'' @ format"
  by (subst copy_loop.simps) simp

lemma copy_loop_taken_eq:
  "isfile fs (b @ ''.'' @ format) \<Longrightarrow> copy_loop fs format b = copy_loop fs format (b @ ''-(copy)'')"
  by (subst copy_loop.simps) simp

lemma copy_loop_free: "\<not> isfile fs (copy_loop fs format b)"
  by (induction fs format b rule: copy_loop.induct) (simp add: copy_loop.simps)

lemma copy_loop_form:
  "\<exists>n. copy_loop fs format b = b @ concat (replicate n ''-(copy)'') @ ''.'' @ format
     \<and> (\<forall>k<n. isfile fs (b @ concat (replicate k ''-(copy)'') @ ''.'' @ format))"
proof (induction fs format b rule: copy_loop.induct)
  case (1 fs format b)
  show ?case
  proof (cases "isfile fs (b @ ''.'' @ format)")
    case False
    then have "copy_loop fs format b = b @ concat (replicate 0 ''-(copy)'') @ ''.'' @ format"
      by (simp add: copy_loop_free_eq)
    then show ?thesis by blast
  next
    case True
    from "1.IH" [OF True] obtain n where
      n: "copy_loop fs format (b @ ''-(copy)'')
            = (b @ ''-(copy)'') @ concat (replicate n ''-(copy)'') @ ''.'' @ format"
      and below: "\<forall>k<n. isfile fs ((b @ ''-(copy)'') @ concat (replicate k ''-(copy)'') @ ''.'' @ format)"
      by blast
    have "copy_loop fs format b = b @ concat (replicate (Suc n) ''-(copy)'') @ ''.'' @ format"
      using True n by (simp add: copy_loop_taken_eq)
    moreover have "isfile fs (b @ concat (replicate k ''-(copy)'') @ ''.'' @ format)"
      if "k < Suc n" for k
    proof (cases k)
      case 0
      with True show ?thesis by simp
    next
      case (Suc j)
      with that have "j < n" by simp
      with below Suc show ?thesis by simp
    qed
    ultimately show ?thesis by blast
  qed
qed

text \<open>
  \<^bold>\<open>C1\<close>, as the claim states it, fails. Three saves under the same base name give
  \<^verbatim>\<open>file.csv\<close>, \<^verbatim>\<open>file-(copy).csv\<close> and \<^verbatim>\<open>file-(copy)-(copy).csv\<close>: the third save does not
  resolve to \<^verbatim>\<open>file-(copy).csv\<close> again, and the first copy keeps the rows of the second save.
\<close>

theorem third_save_counterexample:
  "and_then (write_file idle_scope [[1]] [''time (s)''] lab) (\<lambda>_ w1.
   and_then (write_file idle_scope [[2]] [''time (s)''] w1) (\<lambda>_ w2.
   write_file idle_scope [[3]] [''time (s)''] w2))
     = Some (Inr (),
         lab\<lparr>files := [(''data/file-(copy)-(copy).csv'', [Header [''time (s)''], Data [3]]),
                       (''data/file-(copy).csv'', [Header [''time (s)''], Data [2]]),
                       (''data/file.csv'', [Header [''time (s)''], Data [1]])],
             trace := [Saved ''data/file.csv'', Saved ''data/file-(copy).csv'',
                       Saved ''data/file-(copy)-(copy).csv'']\<rparr>)
   \<and> fst (check_file_exists ''csv'' two_saved) \<noteq> ''data/file-(copy).csv''"
  by (simp add: write_file_def check_file_exists_def lab_def lab_session_def bench_def two_saved_def
       idle_scope_def
       base_name_def copy_loop_free_eq copy_loop_taken_eq isfile_def fs_write_def)

text \<open>
  \<^bold>\<open>C1\<close>, amended. \<^verbatim>\<open>check_file_exists\<close> returns the base name followed by the marker
  \<^verbatim>\<open>-(copy)\<close> as many times as it takes to reach a path that names no file, and the
  extension: the plain name when it is free, one marker when only the plain file exists,
  two markers when the plain file and the first copy exist. The path it returns never
  names an existing file, so a save through it overwrites nothing.
\<close>

theorem check_file_exists_appends_until_free:
  "(\<not> isfile (files w) (base_name (self w) @ ''.'' @ format)
      \<longrightarrow> fst (check_file_exists format w) = base_name (self w) @ ''.'' @ format)
   \<and> (isfile (files w) (base_name (self w) @ ''.'' @ format)
      \<and> \<not> isfile (files w) (base_name (self w) @ ''-(copy)'' @ ''.'' @ format)
      \<longrightarrow> fst (check_file_exists format w) = base_name (self w) @ ''-(copy)'' @ ''.'' @ format)
   \<and> (isfile (files w) (base_name (self w) @ ''.'' @ format)
      \<and> isfile (files w) (base_name (self w) @ ''-(copy)'' @ ''.'' @ format)
      \<and> \<not> isfile (files w) (base_name (self w) @ ''-(copy)'' @ ''-(copy)'' @ ''.'' @ format)
      \<longrightarrow> fst (check_file_exists format w)
            = base_name (self w) @ ''-(copy)'' @ ''-(copy)'' @ ''.'' @ format)
   \<and> \<not> isfile (files w) (fst (check_file_exists format w))
   \<and> (\<exists>n. fst (check_file_exists format w)
            = base_name (self w) @ concat (replicate n ''-(copy)'') @ ''.'' @ format
          \<and> (\<forall>k<n. isfile (files w)
                (base_name (self w) @ concat (replicate k ''-(copy)'') @ ''.'' @ format)))"
proof -
  have res: "fst (check_file_exists format w) = copy_loop (files w) format (base_name (self w))"
    by (simp add: check_file_exists_def Let_def)
  have one: "\<not> isfile (files w) (base_name (self w) @ ''.'' @ format)
      \<longrightarrow> fst (check_file_exists format w) = base_name (self w) @ ''.'' @ format"
    by (simp add: res copy_loop_free_eq)
  have two: "isfile (files w) (base_name (self w) @ ''.'' @ format)
      \<and> \<not> isfile (files w) (base_name (self w) @ ''-(copy)'' @ ''.'' @ format)
      \<longrightarrow> fst (check_file_exists format w) = base_name (self w) @ ''-(copy)'' @ ''.'' @ format"
    using copy_loop_free_eq [of "files w" "base_name (self w) @ ''-(copy)''" format]
    by (simp add: res copy_loop_taken_eq)
  have three: "isfile (files w) (base_name (self w) @ ''.'' @ format)
      \<and> isfile (files w) (base_name (self w) @ ''-(copy)'' @ ''.'' @ format)
      \<and> \<not> isfile (files w) (base_name (self w) @ ''-(copy)'' @ ''-(copy)'' @ ''.'' @ format)
      \<longrightarrow> fst (check_file_exists format w)
            = base_name (self w) @ ''-(copy)'' @ ''-(copy)'' @ ''.'' @ format"
    using copy_loop_free_eq [of "files w" "(base_name (self w) @ ''-(copy)'') @ ''-(copy)''" format]
      copy_loop_taken_eq [of "files w" "base_name (self w) @ ''-(copy)''" format]
    by (simp add: res copy_loop_taken_eq)
  have free: "\<not> isfile (files w) (fst (check_file_exists format w))"
    by (simp add: res copy_loop_free)
  have form: "\<exists>n. fst (check_file_exists format w)
            = base_name (self w) @ concat (replicate n ''-(copy)'') @ ''.'' @ format
          \<and> (\<forall>k<n. isfile (files w)
                (base_name (self w) @ concat (replicate k ''-(copy)'') @ ''.'' @ format))"
    unfolding res by (rule copy_loop_form)
  from one two three free form show ?thesis by blast
qed

theorem check_file_exists_appends_until_free_witness:
  "isfile (files two_saved) (base_name (self two_saved) @ ''.'' @ ''csv'')
   \<and> isfile (files two_saved) (base_name (self two_saved) @ ''-(copy)'' @ ''.'' @ ''csv'')
   \<and> \<not> isfile (files two_saved) (base_name (self two_saved) @ ''-(copy)'' @ ''-(copy)'' @ ''.'' @ ''csv'')
   \<and> fst (check_file_exists ''csv'' two_saved) = ''data/file-(copy)-(copy).csv''"
  using check_file_exists_appends_until_free [of two_saved "''csv''"]
  by (simp add: two_saved_def lab_def lab_session_def base_name_def isfile_def)

section \<open>Polling\<close>

text \<open>A poll whose first answer ends it.\<close>

lemma opc_check_ready:
  "fst (d_query_opc drv (dev w)) = Inr True
   \<Longrightarrow> opc_check drv w = Some (Inr (), w\<lparr>dev := snd (d_query_opc drv (dev w))\<rparr>)"
  by (cases "d_query_opc drv (dev w)")
     (simp add: opc_check_def opc_loop.simps [of drv _ w] query_opc_def)

lemma opc_wait_ready:
  "fst (d_query_opc drv (dev w)) = Inr True
   \<Longrightarrow> opc_wait drv w = Some (Inr (), w\<lparr>dev := snd (d_query_opc drv (dev w))\<rparr>)"
  by (cases "d_query_opc drv (dev w)") (simp add: opc_wait.simps [of drv w] query_opc_def)

lemma calibration_loop_left:
  "fst (d_query drv (''CAL:STAT?'', []) (dev w)) = Inr s \<Longrightarrow> s \<noteq> ''RUN''
   \<Longrightarrow> calibration_loop drv w
       = Some (Inr (), w\<lparr>dev := snd (d_query drv (''CAL:STAT?'', []) (dev w))\<rparr>)"
  by (cases "d_query drv (''CAL:STAT?'', []) (dev w)")
     (simp add: calibration_loop.simps [of drv w] query_str_def)

section \<open>Handlers\<close>

text \<open>
  \<^bold>\<open>C2\<close>. The instrument leaves \<^verbatim>\<open>RUN\<close> with the status \<^verbatim>\<open>OK\<close>, and \<^verbatim>\<open>calibration\<close> does not
  print the success message: after the loop it asks \<^verbatim>\<open>CAL:SAT?\<close>, not \<^verbatim>\<open>CAL:STAT?\<close>, the
  instrument rejects the unknown header, and the handler prints the error message
  instead.
\<close>

theorem calibration_ok_not_reported:
  "calibration typo_scope lab
     = Some (Inr (),
         lab\<lparr>trace := [Sent (''CAL'', []),
                       Printed (''Error with instrument                   self-alignment\<newline>-113,Undefined header'', [])]\<rparr>)"
  by (simp add: calibration_def calibration_loop_left typo_scope_def bench_def lab_def
        write_str_def query_def query_str_def print_args0_def concat_args0_def print_def)

text \<open>
  \<^bold>\<open>C3\<close>. The session cannot be opened; the constructor prints the message of the failure
  and goes on to \<^verbatim>\<open>clear_status\<close>, which is outside the \<^verbatim>\<open>try\<close>: its exception leaves the
  constructor, and no object is returned.
\<close>

theorem init_open_failure_propagates:
  "init unreachable_scope ''192.168.0.2'' ''LAN'' True ''data/'' lab
     = Some (Inl (attribute_error ''_core''),
         lab\<lparr>self := unset_session,
             trace := [Printed (''Error initializing the instrument session:\<newline>No VISA resource found'', [])]\<rparr>)"
  by (simp add: init_def unreachable_scope_def bench_def lab_def resource_str_def open_session_def
        clear_status_def print_args0_def concat_args0_def print_def)

text \<open>
  \<^bold>\<open>C8\<close>. The data query of channel 1 raises an exception whose first argument is a
  number. The handler of \<^verbatim>\<open>query_data\<close> prints its first line and then fails on
  \<^verbatim>\<open>'Exception raised: ' + ex.args[0]\<close>: the TypeError leaves \<^verbatim>\<open>query_data\<close>, no sentinel is
  returned, and \<^verbatim>\<open>save_channels\<close> ends with the same exception before it asks for channel 2
  or writes a file.
\<close>

theorem query_data_handler_raises:
  "query_data flaky_scope 1 lab
     = Some (Inl (concat_type_error ''int''),
         lab\<lparr>trace := [Printed (''Channel {} unavailable. Please check connection\<newline>'', [PInt 1])]\<rparr>)
   \<and> (\<exists>w'. save_channels flaky_scope lab = Some (Inl (concat_type_error ''int''), w')
          \<and> files w' = [])"
  by (simp add: query_data_def save_channels_def query_time_def channels0_def opc_check_ready
        flaky_scope_def bench_def lab_def lab_session_def query_bin_or_ascii_float_list_def
        print_args0_def concat_args0_def print_def linspace_def int_of_float_def time_now_def)

section \<open>Reading the trace\<close>

text \<open>
  \<open>sent_args t evs\<close> lists, in order, the arguments of the commands with template \<open>t\<close>
  among the events \<open>evs\<close>; \<open>printed evs\<close> lists the lines printed, \<open>sent evs\<close> all the
  commands sent, and \<open>actions evs\<close> what is left of \<open>evs\<close> without the printed lines.
\<close>

fun sent_args :: "string \<Rightarrow> event list \<Rightarrow> pyval list list" where
  "sent_args t [] = []"
| "sent_args t (Sent (u, a) # es) = (if u = t then a # sent_args t es else sent_args t es)"
| "sent_args t (Printed m # es) = sent_args t es"
| "sent_args t (Saved p # es) = sent_args t es"

fun printed :: "event list \<Rightarrow> fstr list" where
  "printed [] = []"
| "printed (Printed m # es) = m # printed es"
| "printed (Sent c # es) = printed es"
| "printed (Saved p # es) = printed es"

fun sent :: "event list \<Rightarrow> fstr list" where
  "sent [] = []"
| "sent (Sent c # es) = c # sent es"
| "sent (Printed m # es) = sent es"
| "sent (Saved p # es) = sent es"

lemma sent_append [simp]: "sent (xs @ ys) = sent xs @ sent ys"
  by (induction xs rule: sent.induct) simp_all

fun actions :: "event list \<Rightarrow> event list" where
  "actions [] = []"
| "actions (Printed m # es) = actions es"
| "actions (Sent c # es) = Sent c # actions es"
| "actions (Saved p # es) = Saved p # actions es"

lemma actions_append [simp]: "actions (xs @ ys) = actions xs @ actions ys"
  by (induction xs rule: actions.induct) simp_all

lemma sent_args_append [simp]: "sent_args t (xs @ ys) = sent_args t xs @ sent_args t ys"
  by (induction t xs rule: sent_args.induct) simp_all

lemma printed_append [simp]: "printed (xs @ ys) = printed xs @ printed ys"
  by (induction xs rule: printed.induct) simp_all

section \<open>An instrument that accepts every command\<close>

text \<open>
  When no \<^verbatim>\<open>write_str\<close> raises and every \<^verbatim>\<open>query_opc\<close> answers true, \<^verbatim>\<open>channel_select\<close>
  switches all channels off and the configured ones on, in order.
\<close>

lemma write_str_accepted:
  "fst (d_write drv c (dev w)) = None
   \<Longrightarrow> write_str drv c w
       = Some (Inr (), w\<lparr>dev := snd (d_write drv c (dev w)), trace := trace w @ [Sent c]\<rparr>)"
  by (cases "d_write drv c (dev w)") (simp add: write_str_def)

lemma select_loop_accepted:
  assumes W: "\<forall>c d. fst (d_write drv c d) = None"
    and O: "\<forall>d. fst (d_query_opc drv d) = Inr True"
  shows "\<exists>d'. select_loop drv cs w
           = Some (Inr (), w\<lparr>dev := d',
                trace := trace w @ map (\<lambda>c. Sent (''CHAN{}:STAT ON'', [PInt c])) cs\<rparr>)"
proof (induction cs arbitrary: w)
  case Nil
  have "w = w\<lparr>dev := dev w, trace := trace w @ []\<rparr>" by simp
  then show ?case by (metis select_loop.simps(1) return_def append_Nil2 list.simps(8))
next
  case (Cons c cs)
  let ?w1 = "w\<lparr>dev := snd (d_write drv (''CHAN{}:STAT ON'', [PInt c]) (dev w)),
               trace := trace w @ [Sent (''CHAN{}:STAT ON'', [PInt c])]\<rparr>"
  let ?w2 = "?w1\<lparr>dev := snd (d_query_opc drv (dev ?w1))\<rparr>"
  have step: "select_loop drv (c # cs) w = select_loop drv cs ?w2"
    using W O by (simp add: write_str_accepted opc_check_ready)
  from Cons.IH [of ?w2] obtain d' where
    "select_loop drv cs ?w2
       = Some (Inr (), ?w2\<lparr>dev := d',
            trace := trace ?w2 @ map (\<lambda>c. Sent (''CHAN{}:STAT ON'', [PInt c])) cs\<rparr>)"
    by blast
  with step show ?case by auto
qed

fun chan_list :: "chans \<Rightarrow> int list" where
  "chan_list (Single c) = [c]"
| "chan_list (ChanList cs) = cs"

lemma channel_select_accepted:
  assumes W: "\<forall>c d. fst (d_write drv c d) = None"
    and O: "\<forall>d. fst (d_query_opc drv d) = Inr True"
  shows "\<exists>d'. channel_select drv w
           = Some (Inr (), w\<lparr>dev := d',
                self := (self w)\<lparr>channels := ChanList (chan_list (channels (self w)))\<rparr>,
                trace := trace w @ Sent (''CHAN:AOFF'', [])
                           # map (\<lambda>c. Sent (''CHAN{}:STAT ON'', [PInt c]))
                               (chan_list (channels (self w)))\<rparr>)"
proof -
  let ?w1 = "w\<lparr>dev := snd (d_write drv (''CHAN:AOFF'', []) (dev w)),
               trace := trace w @ [Sent (''CHAN:AOFF'', [])]\<rparr>"
  show ?thesis
  proof (cases "channels (self w)")
    case (Single c)
    let ?w2 = "?w1\<lparr>self := (self ?w1)\<lparr>channels := ChanList [c]\<rparr>\<rparr>"
    from select_loop_accepted [OF W O, of "[c]" ?w2] obtain d' where
      "select_loop drv [c] ?w2
         = Some (Inr (), ?w2\<lparr>dev := d',
              trace := trace ?w2 @ map (\<lambda>c. Sent (''CHAN{}:STAT ON'', [PInt c])) [c]\<rparr>)"
      by blast
    with Single W show ?thesis
      by (intro exI [of _ d']) (simp add: channel_select_def write_str_accepted)
  next
    case (ChanList cs)
    from select_loop_accepted [OF W O, of cs ?w1] obtain d' where
      "select_loop drv cs ?w1
         = Some (Inr (), ?w1\<lparr>dev := d',
              trace := trace ?w1 @ map (\<lambda>c. Sent (''CHAN{}:STAT ON'', [PInt c])) cs\<rparr>)"
      by blast
    with ChanList W show ?thesis
      by (intro exI [of _ d']) (simp add: channel_select_def write_str_accepted)
  qed
qed

lemma sent_args_stat_on [simp]:
  "t \<noteq> ''CHAN{}:STAT ON''
   \<Longrightarrow> sent_args t (map (\<lambda>c. Sent (''CHAN{}:STAT ON'', [PInt c])) cs) = []"
  by (induction cs) auto

lemma printed_stat_on [simp]:
  "printed (map (\<lambda>c. Sent (''CHAN{}:STAT ON'', [PInt c])) cs) = []"
  by (induction cs) auto

section \<open>Answered queries\<close>

lemma query_str_answered:
  "fst (d_query drv c (dev w)) = Inr s
   \<Longrightarrow> query_str drv c w = Some (Inr s, w\<lparr>dev := snd (d_query drv c (dev w))\<rparr>)"
  by (cases "d_query drv c (dev w)") (simp add: query_str_def)

lemma py_int_4: "py_int ''4'' = Inr 4"
  by (simp add: py_int_def strip_def is_space_def digits_def is_digit_def digit_val_def)

section \<open>Averaging\<close>

text \<open>
  One turn of the wait loop, and its end: when the query never fails, \<^verbatim>\<open>sleep(1)\<close> takes
  at least a second and the clock does not run backwards during a query, the loop returns
  after at most as many turns as the timeout has seconds left. It sends nothing, and if
  the instrument never answers \<^verbatim>\<open>'1'\<close> it leaves by the timeout: more than the timeout has
  passed since \<open>start\<close>, and the timeout line is printed once.
\<close>

lemma average_loop_step:
  assumes "fst (d_query drv (''ACQ:AVER:COMP?'', []) (dev w)) = Inr s"
    and "acquisition_timeout (self w) = Some t"
  shows "average_loop drv start w =
     (let w1 = w\<lparr>dev := snd (d_query drv (''ACQ:AVER:COMP?'', []) (dev w))\<rparr> in
      if s \<noteq> ''1''
      then if time_now drv w1 - start > t
           then Some (Inr (), print (''Average acquisition timeout.'', []) w1)
           else average_loop drv start
                  (sleep drv 1 (if verbose (self w1) then print (''Acquiring...'', []) w1 else w1))
      else Some (Inr (), w1))"
  using assms
  by (subst average_loop.simps) (simp add: query_def query_str_answered Let_def)

lemma average_loop_ends:
  assumes Q: "\<forall>d. \<exists>s. fst (d_query drv (''ACQ:AVER:COMP?'', []) d) = Inr s"
    and S: "\<forall>d. d_now drv d + 1 \<le> d_now drv (d_sleep drv 1 d)"
    and Mq: "\<forall>d. d_now drv d \<le> d_now drv (snd (d_query drv (''ACQ:AVER:COMP?'', []) d))"
  shows "acquisition_timeout (self w) = Some t \<Longrightarrow> t < time_now drv w - start + real n \<Longrightarrow>
     \<exists>d' evs. average_loop drv start w = Some (Inr (), w\<lparr>dev := d', trace := trace w @ evs\<rparr>)
        \<and> sent evs = [] \<and> d_now drv (dev w) \<le> d_now drv d'
        \<and> ((\<forall>d. fst (d_query drv (''ACQ:AVER:COMP?'', []) d) \<noteq> Inr ''1'')
            \<longrightarrow> t < d_now drv d' - start
              \<and> filter (\<lambda>m. m = (''Average acquisition timeout.'', [])) (printed evs)
                  = [(''Average acquisition timeout.'', [])])"
proof (induction n arbitrary: w)
  case 0
  from Q obtain s where s: "fst (d_query drv (''ACQ:AVER:COMP?'', []) (dev w)) = Inr s"
    by blast
  let ?d1 = "snd (d_query drv (''ACQ:AVER:COMP?'', []) (dev w))"
  have mono: "d_now drv (dev w) \<le> d_now drv ?d1" using Mq by blast
  with 0 have late: "t < d_now drv ?d1 - start" by (simp add: time_now_def)
  show ?case
  proof (cases "s = ''1''")
    case True
    then have "average_loop drv start w = Some (Inr (), w\<lparr>dev := ?d1, trace := trace w @ []\<rparr>)"
      using average_loop_step [OF s "0.prems"(1), of start] by (simp add: Let_def)
    moreover have "\<not> (\<forall>d. fst (d_query drv (''ACQ:AVER:COMP?'', []) d) \<noteq> Inr ''1'')"
      using s True by blast
    ultimately show ?thesis using mono
      by (intro exI [of _ ?d1] exI [of _ "[]"]) simp
  next
    case False
    then have "average_loop drv start w
        = Some (Inr (), w\<lparr>dev := ?d1,
             trace := trace w @ [Printed (''Average acquisition timeout.'', [])]\<rparr>)"
      using average_loop_step [OF s "0.prems"(1), of start] late
      by (simp add: Let_def time_now_def print_def)
    then show ?thesis using mono late
      by (intro exI [of _ ?d1] exI [of _ "[Printed (''Average acquisition timeout.'', [])]"]) simp
  qed
next
  case (Suc n)
  from Q obtain s where s: "fst (d_query drv (''ACQ:AVER:COMP?'', []) (dev w)) = Inr s"
    by blast
  let ?d1 = "snd (d_query drv (''ACQ:AVER:COMP?'', []) (dev w))"
  let ?w1 = "w\<lparr>dev := ?d1\<rparr>"
  have mono: "d_now drv (dev w) \<le> d_now drv ?d1" using Mq by blast
  show ?case
  proof (cases "s = ''1''")
    case True
    then have "average_loop drv start w = Some (Inr (), w\<lparr>dev := ?d1, trace := trace w @ []\<rparr>)"
      using average_loop_step [OF s Suc.prems(1), of start] by (simp add: Let_def)
    moreover have "\<not> (\<forall>d. fst (d_query drv (''ACQ:AVER:COMP?'', []) d) \<noteq> Inr ''1'')"
      using s True by blast
    ultimately show ?thesis using mono
      by (intro exI [of _ ?d1] exI [of _ "[]"]) simp
  next
    case False
    show ?thesis
    proof (cases "t < d_now drv ?d1 - start")
      case True
      then have "average_loop drv start w
          = Some (Inr (), w\<lparr>dev := ?d1,
               trace := trace w @ [Printed (''Average acquisition timeout.'', [])]\<rparr>)"
        using average_loop_step [OF s Suc.prems(1), of start] False
        by (simp add: Let_def time_now_def print_def)
      then show ?thesis using mono True
        by (intro exI [of _ ?d1] exI [of _ "[Printed (''Average acquisition timeout.'', [])]"]) simp
    next
      case early: False
      let ?pr = "if verbose (self w) then [Printed (''Acquiring...'', [])] else []"
      let ?w2 = "w\<lparr>dev := d_sleep drv 1 ?d1, trace := trace w @ ?pr\<rparr>"
      have w2: "sleep drv 1 (if verbose (self ?w1) then print (''Acquiring...'', []) ?w1 else ?w1) = ?w2"
        by (simp add: sleep_def print_def)
      have unfold: "average_loop drv start w = average_loop drv start ?w2"
        using average_loop_step [OF s Suc.prems(1), of start] False early w2
        by (simp add: Let_def time_now_def)
      have slept: "d_now drv ?d1 + 1 \<le> d_now drv (d_sleep drv 1 ?d1)" using S by blast
      have T2: "acquisition_timeout (self ?w2) = Some t" using Suc.prems(1) by simp
      have "t < time_now drv ?w2 - start + real n"
        using Suc.prems(2) mono slept by (simp add: time_now_def)
      from Suc.IH [OF T2 this] obtain d' evs where
        run: "average_loop drv start ?w2 = Some (Inr (), ?w2\<lparr>dev := d', trace := trace ?w2 @ evs\<rparr>)"
        and quiet: "sent evs = []"
        and later: "d_now drv (dev ?w2) \<le> d_now drv d'"
        and timed: "(\<forall>d. fst (d_query drv (''ACQ:AVER:COMP?'', []) d) \<noteq> Inr ''1'')
            \<longrightarrow> t < d_now drv d' - start
              \<and> filter (\<lambda>m. m = (''Average acquisition timeout.'', [])) (printed evs)
                  = [(''Average acquisition timeout.'', [])]"
        by blast
      have "average_loop drv start w = Some (Inr (), w\<lparr>dev := d', trace := trace w @ (?pr @ evs)\<rparr>)"
        using unfold run by simp
      moreover have "sent (?pr @ evs) = []" using quiet by simp
      moreover have "d_now drv (dev w) \<le> d_now drv d'" using later mono slept by simp
      moreover have "(\<forall>d. fst (d_query drv (''ACQ:AVER:COMP?'', []) d) \<noteq> Inr ''1'')
            \<longrightarrow> t < d_now drv d' - start
              \<and> filter (\<lambda>m. m = (''Average acquisition timeout.'', [])) (printed (?pr @ evs))
                  = [(''Average acquisition timeout.'', [])]"
        using timed by simp
      ultimately show ?thesis by blast
    qed
  qed
qed

lemma real_below_ceiling: "t < real (nat \<lceil>t\<rceil> + 1)"
proof -
  have "t \<le> of_int \<lceil>t\<rceil>" by (rule le_of_int_ceiling)
  also have "(of_int \<lceil>t\<rceil> :: real) \<le> real (nat \<lceil>t\<rceil>)" by simp
  finally show ?thesis by simp
qed

text \<open>
  \<^bold>\<open>C5\<close>. On an instrument that accepts the commands and answers the completion query,
  with a clock that does not run backwards and a \<^verbatim>\<open>sleep(1)\<close> that takes at least a second,
  \<^verbatim>\<open>average\<close> returns true and has sent \<^verbatim>\<open>STOP\<close> exactly once, as its last command, whether
  the wait ended by completion or by the timeout. If the instrument never answers \<^verbatim>\<open>'1'\<close>,
  more than the acquisition timeout has passed when it returns, and the timeout line
  was printed once.
\<close>

theorem average_stops_once:
  assumes W: "\<forall>c d. fst (d_write drv c d) = None"
    and Mw: "\<forall>c d. d_now drv d \<le> d_now drv (snd (d_write drv c d))"
    and Q: "\<forall>d. \<exists>s. fst (d_query drv (''ACQ:AVER:COMP?'', []) d) = Inr s"
    and Mq: "\<forall>d. d_now drv d \<le> d_now drv (snd (d_query drv (''ACQ:AVER:COMP?'', []) d))"
    and S: "\<forall>d. d_now drv d + 1 \<le> d_now drv (d_sleep drv 1 d)"
    and T: "acquisition_timeout (self w) = Some t"
  shows "\<exists>w' evs. average drv N w = Some (Inr True, w')
           \<and> trace w' = trace w @ evs
           \<and> sent evs = [(''ACQ:TYPE AVER'', []), (''ACQ:AVER:RES'', []),
                          (''ACQ:NSIN:COUN {}'', [PInt 1]), (''ACQ:AVER:COUN {}'', [PInt N]),
                          (''RUN'', []), (''STOP'', [])]
           \<and> ((\<forall>d. fst (d_query drv (''ACQ:AVER:COMP?'', []) d) \<noteq> Inr ''1'')
               \<longrightarrow> t < time_now drv w' - time_now drv w
                 \<and> filter (\<lambda>m. m = (''Average acquisition timeout.'', [])) (printed evs)
                     = [(''Average acquisition timeout.'', [])])"
proof -
  let ?c1 = "(''ACQ:TYPE AVER'', [])" and ?c2 = "(''ACQ:AVER:RES'', [])"
    and ?c3 = "(''ACQ:NSIN:COUN {}'', [PInt 1])" and ?c4 = "(''ACQ:AVER:COUN {}'', [PInt N])"
    and ?c5 = "(''RUN'', [])" and ?c6 = "(''STOP'', [])"
  let ?d1 = "snd (d_write drv ?c1 (dev w))"
  let ?d2 = "snd (d_write drv ?c2 ?d1)"
  let ?d3 = "snd (d_write drv ?c3 ?d2)"
  let ?d4 = "snd (d_write drv ?c4 ?d3)"
  let ?d5 = "snd (d_write drv ?c5 ?d4)"
  let ?w5 = "w\<lparr>dev := ?d5, trace := trace w @ map Sent [?c1, ?c2, ?c3, ?c4, ?c5]\<rparr>"
  let ?start = "time_now drv w"
  have "d_now drv (dev w) \<le> d_now drv ?d1" using Mw by blast
  also have "\<dots> \<le> d_now drv ?d2" using Mw by blast
  also have "\<dots> \<le> d_now drv ?d3" using Mw by blast
  also have "\<dots> \<le> d_now drv ?d4" using Mw by blast
  also have "\<dots> \<le> d_now drv ?d5" using Mw by blast
  finally have started: "d_now drv (dev w) \<le> d_now drv ?d5" .
  have T5: "acquisition_timeout (self ?w5) = Some t" using T by simp
  have "t < time_now drv ?w5 - ?start + real (nat \<lceil>t\<rceil> + 1)"
    using started real_below_ceiling [of t] by (simp add: time_now_def)
  from average_loop_ends [OF Q S Mq T5 this] obtain d6 evs where
    loop: "average_loop drv ?start ?w5 = Some (Inr (), ?w5\<lparr>dev := d6, trace := trace ?w5 @ evs\<rparr>)"
    and quiet: "sent evs = []"
    and later: "d_now drv (dev ?w5) \<le> d_now drv d6"
    and timed: "(\<forall>d. fst (d_query drv (''ACQ:AVER:COMP?'', []) d) \<noteq> Inr ''1'')
            \<longrightarrow> t < d_now drv d6 - ?start
              \<and> filter (\<lambda>m. m = (''Average acquisition timeout.'', [])) (printed evs)
                  = [(''Average acquisition timeout.'', [])]"
    by blast
  let ?w7 = "w\<lparr>dev := snd (d_write drv ?c6 d6),
              trace := trace w @ map Sent [?c1, ?c2, ?c3, ?c4, ?c5] @ evs @ [Sent ?c6]\<rparr>"
  have five: "and_then (write_str drv ?c1 w) (\<lambda>_ w1.
         and_then (write_str drv ?c2 w1) (\<lambda>_ w2.
         and_then (write_str drv ?c3 w2) (\<lambda>_ w3.
         and_then (write_str drv ?c4 w3) (\<lambda>_ w4.
         and_then (write_str drv ?c5 w4) (\<lambda>_ w5. f w5))))) = f ?w5" for f
    using W by (simp add: write_str_accepted)
  have run: "average drv N w = Some (Inr True, ?w7)"
    unfolding average_def Let_def five
    using W loop by (simp add: write_str_accepted)
  have stop_late: "d_now drv d6 \<le> d_now drv (snd (d_write drv ?c6 d6))" using Mw by blast
  have "trace ?w7 = trace w @ (map Sent [?c1, ?c2, ?c3, ?c4, ?c5] @ evs @ [Sent ?c6])" by simp
  moreover have "sent (map Sent [?c1, ?c2, ?c3, ?c4, ?c5] @ evs @ [Sent ?c6])
      = [?c1, ?c2, ?c3, ?c4, ?c5, ?c6]"
    using quiet by simp
  moreover have "(\<forall>d. fst (d_query drv (''ACQ:AVER:COMP?'', []) d) \<noteq> Inr ''1'')
       \<longrightarrow> t < time_now drv ?w7 - time_now drv w
         \<and> filter (\<lambda>m. m = (''Average acquisition timeout.'', []))
               (printed (map Sent [?c1, ?c2, ?c3, ?c4, ?c5] @ evs @ [Sent ?c6]))
             = [(''Average acquisition timeout.'', [])]"
    using timed stop_late by (auto simp add: time_now_def)
  ultimately show ?thesis using run by blast
qed

theorem average_stops_once_witness:
  "(\<forall>c d. fst (d_write averaging_scope c d) = None)
   \<and> (\<forall>c d. d_now averaging_scope d \<le> d_now averaging_scope (snd (d_write averaging_scope c d)))
   \<and> (\<forall>d. \<exists>s. fst (d_query averaging_scope (''ACQ:AVER:COMP?'', []) d) = Inr s)
   \<and> (\<forall>d. d_now averaging_scope d
          \<le> d_now averaging_scope (snd (d_query averaging_scope (''ACQ:AVER:COMP?'', []) d)))
   \<and> (\<forall>d. d_now averaging_scope d + 1 \<le> d_now averaging_scope (d_sleep averaging_scope 1 d))
   \<and> acquisition_timeout (self lab) = Some 10
   \<and> (\<forall>d. fst (d_query averaging_scope (''ACQ:AVER:COMP?'', []) d) \<noteq> Inr ''1'')
   \<and> (\<exists>w' evs. average averaging_scope 50 lab = Some (Inr True, w')
           \<and> trace w' = trace lab @ evs
           \<and> sent evs = [(''ACQ:TYPE AVER'', []), (''ACQ:AVER:RES'', []),
                          (''ACQ:NSIN:COUN {}'', [PInt 1]), (''ACQ:AVER:COUN {}'', [PInt 50]),
                          (''RUN'', []), (''STOP'', [])]
           \<and> 10 < time_now averaging_scope w' - time_now averaging_scope lab
           \<and> filter (\<lambda>m. m = (''Average acquisition timeout.'', [])) (printed evs)
                     = [(''Average acquisition timeout.'', [])])"
proof -
  have W: "\<forall>c d. fst (d_write averaging_scope c d) = None"
    and Mw: "\<forall>c d. d_now averaging_scope d \<le> d_now averaging_scope (snd (d_write averaging_scope c d))"
    and Q: "\<forall>d. \<exists>s. fst (d_query averaging_scope (''ACQ:AVER:COMP?'', []) d) = Inr s"
    and Mq: "\<forall>d. d_now averaging_scope d
          \<le> d_now averaging_scope (snd (d_query averaging_scope (''ACQ:AVER:COMP?'', []) d))"
    and S: "\<forall>d. d_now averaging_scope d + 1 \<le> d_now averaging_scope (d_sleep averaging_scope 1 d)"
    and T: "acquisition_timeout (self lab) = Some 10"
    and never: "\<forall>d. fst (d_query averaging_scope (''ACQ:AVER:COMP?'', []) d) \<noteq> Inr ''1''"
    by (simp_all add: averaging_scope_def bench_def lab_def lab_session_def)
  from average_stops_once [OF W Mw Q Mq S T, of 50] never
  have "\<exists>w' evs. average averaging_scope 50 lab = Some (Inr True, w')
           \<and> trace w' = trace lab @ evs
           \<and> sent evs = [(''ACQ:TYPE AVER'', []), (''ACQ:AVER:RES'', []),
                          (''ACQ:NSIN:COUN {}'', [PInt 1]), (''ACQ:AVER:COUN {}'', [PInt 50]),
                          (''RUN'', []), (''STOP'', [])]
           \<and> 10 < time_now averaging_scope w' - time_now averaging_scope lab
           \<and> filter (\<lambda>m. m = (''Average acquisition timeout.'', [])) (printed evs)
                     = [(''Average acquisition timeout.'', [])]"
    by simp
  with W Mw Q Mq S T never show ?thesis by blast
qed

section \<open>Saving\<close>

text \<open>
  The steps of \<^verbatim>\<open>save_channels\<close> on an instrument that reports every operation complete,
  answers the header query with a start, a stop and a count above \<open>-1\<close>, and fails a data
  query only with an exception that carries a message. A channel is \<open>unavailable\<close> when
  its data query fails in every state of the instrument.
\<close>

lemma query_floats_answered:
  "fst (d_query_floats drv c (dev w)) = r
   \<Longrightarrow> query_bin_or_ascii_float_list drv c w
       = Some (r, w\<lparr>dev := snd (d_query_floats drv c (dev w))\<rparr>)"
  by (cases "d_query_floats drv c (dev w)") (simp add: query_bin_or_ascii_float_list_def)



definition unavailable :: "'d driver \<Rightarrow> int \<Rightarrow> bool" where
  "unavailable drv c \<longleftrightarrow> (\<forall>d. \<exists>e. fst (d_query_floats drv (''CHAN{}:DATA?'', [PInt c]) d) = Inl e)"



lemma write_file_written:
  assumes F: "\<forall>p d. d_open_w drv p d = None"
  shows "\<exists>evs. write_file drv rows headers w
      = Some (Inr (),
          w\<lparr>files := fs_write (copy_loop (files w) (file_format (self w)) (base_name (self w)))
                       ((if headers \<noteq> [] then [Header headers] else []) @ map Data rows) (files w),
            trace := trace w @ evs\<rparr>)
      \<and> actions evs = [Saved (copy_loop (files w) (file_format (self w)) (base_name (self w)))]"
proof -
  let ?p = "copy_loop (files w) (file_format (self w)) (base_name (self w))"
  let ?evs = "(if verbose (self w) then [Printed (''Saving file as '' @ ?p, [])] else [])
      @ [Saved ?p]
      @ (if verbose (self w)
         then [Printed (''Save successful! File                   {}.{}                     saved in {}.'',
                 [PStr (fname (self w)), PStr (file_format (self w)), PStr (path (self w))])]
         else [])"
  have "write_file drv rows headers w
      = Some (Inr (),
          w\<lparr>files := fs_write ?p
                       ((if headers \<noteq> [] then [Header headers] else []) @ map Data rows) (files w),
            trace := trace w @ ?evs\<rparr>)"
    using F by (simp add: write_file_def check_file_exists_def Let_def print_def)
  moreover have "actions ?evs = [Saved ?p]" by simp
  ultimately show ?thesis by blast
qed


lemma py_zip_row_length: "r \<in> set (py_zip xs cols) \<Longrightarrow> length r = Suc (length cols)"
  by (auto simp: py_zip_def)

lemma foldr_min_length:
  "foldr (\<lambda>c n. min (length c) n) cols m = Min (insert m (length ` set cols))"
proof (induction cols)
  case Nil
  show ?case by simp
next
  case (Cons a cols)
  have "Min (insert m (length ` set (a # cols)))
      = Min (insert (length a) (insert m (length ` set cols)))"
    by (simp add: insert_commute)
  also have "\<dots> = min (length a) (Min (insert m (length ` set cols)))"
    by (rule Min_insert) simp_all
  finally show ?case using Cons.IH by simp
qed

lemma length_py_zip: "length (py_zip xs cols) = Min (length ` set (xs # cols))"
  by (simp add: py_zip_def foldr_min_length)

lemma map_of_fs_write: "map_of (fs_write p rows fs) p = Some rows"
  by (simp add: fs_write_def)

lemma segment_scope_behaves:
  "\<forall>d. fst (d_query_opc segment_scope d) = Inr True"
  "\<forall>d. \<exists>a b n rest.
     fst (d_query_floats segment_scope (''CHAN{}:DATA:HEAD?'', [PInt 1]) d) = Inr (a # b # n # rest)
     \<and> - 1 < n"
  "\<forall>c d e. fst (d_query_floats segment_scope (''CHAN{}:DATA?'', [PInt c]) d) = Inl e
     \<longrightarrow> (\<exists>m a. args e = PStr m # a)"
  "\<forall>p d. d_open_w segment_scope p d = None"
  "\<forall>c d. fst (d_write segment_scope c d) = None"
  by (auto simp add: segment_scope_def bench_def)

lemma upt_3: "[0..<3] = [0, 1, 2]"
  by (simp add: numeral_3_eq_3 upt_rec)

text \<open>
  \<^bold>\<open>C10\<close>, as the specification has it, fails. The data queries of both configured
  channels succeed; channel 1 answers with no samples and channel 2 with three. The
  shortest sequence retrieved has no element, and no channel is unavailable; yet the
  file has three data rows, and each has two fields under a header of three names: the
  test \<^verbatim>\<open>if data\<close> leaves an empty answer out as it does the value \<^verbatim>\<open>False\<close>, and the samples
  of channel 2 stand in the column that the header gives to channel 1.
\<close>

theorem empty_answer_counterexample:
  "(\<forall>d. fst (d_query_floats hollow_scope (''CHAN{}:DATA?'', [PInt 1]) d) = Inr [])
   \<and> (\<forall>d. fst (d_query_floats hollow_scope (''CHAN{}:DATA?'', [PInt 2]) d) = Inr [1, 2, 3])
   \<and> save_channels hollow_scope lab
       = Some (Inr (),
           lab\<lparr>files := [(''data/file.csv'',
                            [Header [''time (s)'', ''C_1 (V)'', ''C_2 (V)''],
                             Data [0, 1], Data [1 / 2, 2], Data [1, 3]])],
               trace := [Saved ''data/file.csv'']\<rparr>)"
  by (simp add: save_channels_def query_time_def query_data_def channels0_def opc_check_ready
        opc_wait_ready hollow_scope_def bench_def lab_def lab_session_def
        query_bin_or_ascii_float_list_def linspace_def int_of_float_def time_now_def
        write_file_def check_file_exists_def copy_loop_free_eq isfile_def base_name_def
        fs_write_def py_zip_def upt_3 str_int_def str_nat_digit digit_char_def)

text \<open>
  The steps of \<^verbatim>\<open>save_channels\<close> on an instrument whose answer to a waveform query does
  not depend on its state.
\<close>

lemma query_time_steady:
  assumes O: "\<forall>d. fst (d_query_opc drv d) = Inr True"
    and H: "fst (d_query_floats drv (''CHAN{}:DATA:HEAD?'', [PInt c0]) (dev w)) = Inr (a # b # n # rest)"
    and T: "linspace a b (int_of_float n) = Inr t"
  shows "\<exists>d'. query_time drv c0 w = Some (Inr t, w\<lparr>dev := d'\<rparr>)"
proof -
  have "query_time drv c0 w
      = Some (Inr t,
          w\<lparr>dev := snd (d_query_opc drv
                  (snd (d_query_floats drv (''CHAN{}:DATA:HEAD?'', [PInt c0]) (dev w))))\<rparr>)"
    using O T by (simp add: query_time_def query_floats_answered [OF H] opc_check_ready)
  then show ?thesis by blast
qed

lemma query_data_steady:
  assumes O: "\<forall>d. fst (d_query_opc drv d) = Inr True"
    and A: "fst (d_query_floats drv (''CHAN{}:DATA?'', [PInt c]) (dev w)) = r"
    and E: "\<forall>e. r = Inl e \<longrightarrow> (\<exists>m a. args e = PStr m # a)"
  shows "\<exists>d' evs. query_data drv c w
           = Some (Inr (case r of Inl e \<Rightarrow> None | Inr xs \<Rightarrow> Some xs),
               w\<lparr>dev := d', trace := trace w @ evs\<rparr>)
           \<and> actions evs = []"
proof (cases "r")
  case (Inr xs)
  with A have a: "fst (d_query_floats drv (''CHAN{}:DATA?'', [PInt c]) (dev w)) = Inr xs" by simp
  have "query_data drv c w
      = Some (Inr (Some xs),
          w\<lparr>dev := snd (d_query_opc drv (snd (d_query_floats drv (''CHAN{}:DATA?'', [PInt c]) (dev w)))),
            trace := trace w @ []\<rparr>)"
    using O by (simp add: query_data_def query_floats_answered [OF a] opc_check_ready)
  with Inr show ?thesis by (metis actions.simps(1) sum.case(2))
next
  case (Inl e)
  with A have a: "fst (d_query_floats drv (''CHAN{}:DATA?'', [PInt c]) (dev w)) = Inl e" by simp
  from E Inl obtain m a where "args e = PStr m # a" by blast
  then have "query_data drv c w
      = Some (Inr None,
          w\<lparr>dev := snd (d_query_floats drv (''CHAN{}:DATA?'', [PInt c]) (dev w)),
            trace := trace w @
              [Printed (''Channel {} unavailable. Please check connection\<newline>'', [PInt c]),
               Printed (''Exception raised: '' @ m, [])]\<rparr>)"
    by (simp add: query_data_def query_floats_answered [OF a] print_args0_def concat_args0_def
          print_def)
  with Inl show ?thesis
    by (intro exI [of _ "snd (d_query_floats drv (''CHAN{}:DATA?'', [PInt c]) (dev w))"]
          exI [of _ "[Printed (''Channel {} unavailable. Please check connection\<newline>'', [PInt c]),
               Printed (''Exception raised: '' @ m, [])]"]) simp
qed

lemma collect_steady:
  assumes O: "\<forall>d. fst (d_query_opc drv d) = Inr True"
    and A: "\<forall>c d. fst (d_query_floats drv (''CHAN{}:DATA?'', [PInt c]) d) = ans c"
    and E: "\<forall>c e. ans c = Inl e \<longrightarrow> (\<exists>m a. args e = PStr m # a)"
  shows "\<exists>d' evs. collect drv cs headers cols w
           = Some (Inr (headers @ map (\<lambda>c. ''C_'' @ str_int c @ '' (V)'') cs,
                        cols @ concat (map (\<lambda>c. case ans c of
                                                   Inl e \<Rightarrow> []
                                                 | Inr xs \<Rightarrow> if xs = [] then [] else [xs]) cs)),
               w\<lparr>dev := d', trace := trace w @ evs\<rparr>)
           \<and> actions evs = []"
proof (induction cs arbitrary: headers cols w)
  case Nil
  show ?case
    by (intro exI [of _ "dev w"] exI [of _ "[]"]) simp
next
  case (Cons c cs)
  let ?one = "\<lambda>c. case ans c of Inl e \<Rightarrow> [] | Inr xs \<Rightarrow> if xs = [] then [] else [xs]"
  from A have a: "fst (d_query_floats drv (''CHAN{}:DATA?'', [PInt c]) (dev w)) = ans c" by simp
  from E have e: "\<forall>e. ans c = Inl e \<longrightarrow> (\<exists>m a. args e = PStr m # a)" by simp
  from query_data_steady [where r = "ans c", OF O a e] obtain d1 evs1 where
    qd: "query_data drv c w
           = Some (Inr (case ans c of Inl e \<Rightarrow> None | Inr xs \<Rightarrow> Some xs),
               w\<lparr>dev := d1, trace := trace w @ evs1\<rparr>)"
    and a1: "actions evs1 = []"
    by blast
  let ?w1 = "w\<lparr>dev := d1, trace := trace w @ evs1\<rparr>"
  let ?w2 = "?w1\<lparr>dev := snd (d_query_opc drv (dev ?w1))\<rparr>"
  have cols: "(case (case ans c of Inl e \<Rightarrow> None | Inr xs \<Rightarrow> Some xs) of
                 Some xs \<Rightarrow> if xs \<noteq> [] then cols @ [xs] else cols
               | None \<Rightarrow> cols) = cols @ ?one c"
    by (cases "ans c") simp_all
  have step: "collect drv (c # cs) headers cols w
      = collect drv cs (headers @ [''C_'' @ str_int c @ '' (V)'']) (cols @ ?one c) ?w2"
    using O by (simp add: qd opc_wait_ready cols)
  from Cons.IH [of "headers @ [''C_'' @ str_int c @ '' (V)'']" "cols @ ?one c" ?w2]
  obtain d' evs where
    rest: "collect drv cs (headers @ [''C_'' @ str_int c @ '' (V)'']) (cols @ ?one c) ?w2
           = Some (Inr ((headers @ [''C_'' @ str_int c @ '' (V)''])
                          @ map (\<lambda>c. ''C_'' @ str_int c @ '' (V)'') cs,
                        (cols @ ?one c) @ concat (map ?one cs)),
               ?w2\<lparr>dev := d', trace := trace ?w2 @ evs\<rparr>)"
    and a2: "actions evs = []"
    by blast
  have "collect drv (c # cs) headers cols w
      = Some (Inr (headers @ map (\<lambda>c. ''C_'' @ str_int c @ '' (V)'') (c # cs),
                   cols @ concat (map ?one (c # cs))),
               w\<lparr>dev := d', trace := trace w @ (evs1 @ evs)\<rparr>)"
    using step rest by simp
  moreover have "actions (evs1 @ evs) = []" using a1 a2 by simp
  ultimately show ?case by blast
qed

lemma py_zip_nth:
  "i < length (py_zip xs cols) \<Longrightarrow> py_zip xs cols ! i = xs ! i # map (\<lambda>c. c ! i) cols"
  by (simp add: py_zip_def)

lemma length_py_zip_insert:
  "length (py_zip xs cols) = Min (insert (length xs) (length ` set cols))"
  by (simp add: py_zip_def foldr_min_length)

lemma length_concat_option:
  "length (concat (map (\<lambda>c. case ans c of Inl e \<Rightarrow> [] | Inr xs \<Rightarrow> if xs = [] then [] else [xs]) cs))
     \<le> length cs"
  "(\<exists>c\<in>set cs. \<exists>e. ans c = Inl e) \<Longrightarrow>
   length (concat (map (\<lambda>c. case ans c of Inl e \<Rightarrow> [] | Inr xs \<Rightarrow> if xs = [] then [] else [xs]) cs))
     < length cs"
proof -
  let ?one = "\<lambda>c. case ans c of Inl e \<Rightarrow> [] | Inr xs \<Rightarrow> if xs = [] then [] else [xs]"
  have one: "length (?one c) \<le> 1" for c by (cases "ans c") simp_all
  show le: "length (concat (map ?one cs)) \<le> length cs" for cs
  proof (induction cs)
    case Nil
    show ?case by simp
  next
    case (Cons c cs)
    with one [of c] show ?case by simp
  qed
  show "length (concat (map ?one cs)) < length cs" if "\<exists>c\<in>set cs. \<exists>e. ans c = Inl e"
    using that
  proof (induction cs)
    case Nil
    then show ?case by simp
  next
    case (Cons c cs)
    show ?case
    proof (cases "\<exists>e. ans c = Inl e")
      case True
      then have "?one c = []" by auto
      with le [of cs] show ?thesis by simp
    next
      case False
      with Cons.prems have "\<exists>c\<in>set cs. \<exists>e. ans c = Inl e" by simp
      from Cons.IH [OF this] one [of c] show ?thesis by simp
    qed
  qed
qed

text \<open>
  \<^bold>\<open>C10\<close>, amended. The instrument reports every operation complete, answers the header
  query of the first channel with \<open>a\<close>, \<open>b\<close>, \<open>n\<close>, from which \<^verbatim>\<open>linspace\<close> makes the time axis
  \<open>t\<close>, answers the data query of channel \<open>c\<close> with \<open>ans c\<close>, samples or an exception that
  carries a message, and lets the file be opened. The columns \<open>cols\<close> are, in the order of
  the configured channels, the answers that are samples and not empty. Then
  \<^verbatim>\<open>save_channels\<close> completes and saves exactly one file, under a new name. Its header
  row names the time axis and every configured channel, whatever the channel answered.
  Its data rows are as many as the shortest of \<open>t\<close> and the columns has elements, and row
  \<open>i\<close> holds element \<open>i\<close> of \<open>t\<close> followed by element \<open>i\<close> of every column: a channel whose
  query failed, or answered with no samples, has no field in it. There are at most as
  many columns as channels, and when the query of a configured channel fails, every data
  row has fewer fields than the header row.
\<close>

theorem save_channels_header_and_rows:
  assumes O: "\<forall>d. fst (d_query_opc drv d) = Inr True"
    and H: "\<forall>d. fst (d_query_floats drv (''CHAN{}:DATA:HEAD?'', [PInt c0]) d) = Inr (a # b # n # rest)"
    and T: "linspace a b (int_of_float n) = Inr t"
    and A: "\<forall>c d. fst (d_query_floats drv (''CHAN{}:DATA?'', [PInt c]) d) = ans c"
    and E: "\<forall>c e. ans c = Inl e \<longrightarrow> (\<exists>m a. args e = PStr m # a)"
    and F: "\<forall>p d. d_open_w drv p d = None"
    and ch: "channels (self w) = ChanList (c0 # cs)"
    and cols: "cols = concat (map (\<lambda>c. case ans c of
                                          Inl e \<Rightarrow> []
                                        | Inr xs \<Rightarrow> if xs = [] then [] else [xs]) (c0 # cs))"
  shows "\<exists>w' p rows evs. save_channels drv w = Some (Inr (), w')
      \<and> \<not> isfile (files w) p
      \<and> trace w' = trace w @ evs \<and> actions evs = [Saved p]
      \<and> map_of (files w') p
          = Some (Header (''time (s)'' # map (\<lambda>c. ''C_'' @ str_int c @ '' (V)'') (c0 # cs))
                    # map Data rows)
      \<and> length rows = Min (insert (length t) (length ` set cols))
      \<and> (\<forall>i<length rows. rows ! i = t ! i # map (\<lambda>xs. xs ! i) cols)
      \<and> length cols \<le> length (c0 # cs)
      \<and> ((\<exists>c\<in>set (c0 # cs). \<exists>e. ans c = Inl e)
          \<longrightarrow> (\<forall>r\<in>set rows.
                 length r < length (''time (s)'' # map (\<lambda>c. ''C_'' @ str_int c @ '' (V)'') (c0 # cs))))"
proof -
  let ?p = "copy_loop (files w) (file_format (self w)) (base_name (self w))"
  let ?hs = "''time (s)'' # map (\<lambda>c. ''C_'' @ str_int c @ '' (V)'') (c0 # cs)"
  let ?rows = "py_zip t cols"
  from H have h: "fst (d_query_floats drv (''CHAN{}:DATA:HEAD?'', [PInt c0]) (dev w))
      = Inr (a # b # n # rest)" by simp
  from query_time_steady [OF O h T] obtain d1 where
    qt: "query_time drv c0 w = Some (Inr t, w\<lparr>dev := d1\<rparr>)"
    by blast
  let ?w1 = "w\<lparr>dev := d1\<rparr>"
  from collect_steady [OF O A E, of "c0 # cs" "[''time (s)'']" "[]" ?w1] cols
  obtain d2 evs2 where
    co: "collect drv (c0 # cs) [''time (s)''] [] ?w1
           = Some (Inr (?hs, cols), ?w1\<lparr>dev := d2, trace := trace ?w1 @ evs2\<rparr>)"
    and a2: "actions evs2 = []"
    by auto
  let ?w2 = "w\<lparr>dev := d2, trace := trace w @ evs2\<rparr>"
  from write_file_written [OF F, of ?rows ?hs ?w2] obtain evs3 where
    wf: "write_file drv ?rows ?hs ?w2
      = Some (Inr (),
          ?w2\<lparr>files := fs_write ?p (Header ?hs # map Data ?rows) (files w),
               trace := trace ?w2 @ evs3\<rparr>)"
    and a3: "actions evs3 = [Saved ?p]"
    by auto
  let ?w3 = "w\<lparr>dev := d2, files := fs_write ?p (Header ?hs # map Data ?rows) (files w),
               trace := trace w @ evs2 @ evs3\<rparr>"
  let ?evs4 = "if verbose (self w)
               then [Printed (''file save in {}s'', [PFloat (time_now drv ?w3 - time_now drv w)])]
               else []"
  let ?w' = "w\<lparr>dev := d2, files := fs_write ?p (Header ?hs # map Data ?rows) (files w),
            trace := trace w @ (evs2 @ evs3 @ ?evs4)\<rparr>"
  have run: "save_channels drv w = Some (Inr (), ?w')"
    using ch qt co wf by (simp add: save_channels_def channels0_def Let_def print_def)
  have new: "\<not> isfile (files w) ?p" by (rule copy_loop_free)
  have tr: "trace ?w' = trace w @ (evs2 @ evs3 @ ?evs4)" by simp
  have act: "actions (evs2 @ evs3 @ ?evs4) = [Saved ?p]" using a2 a3 by simp
  have content: "map_of (files ?w') ?p = Some (Header ?hs # map Data ?rows)"
    by (simp add: map_of_fs_write)
  have count: "length ?rows = Min (insert (length t) (length ` set cols))"
    by (rule length_py_zip_insert)
  have each: "\<forall>i<length ?rows. ?rows ! i = t ! i # map (\<lambda>xs. xs ! i) cols"
    by (simp add: py_zip_nth)
  have le: "length cols \<le> length (c0 # cs)"
    unfolding cols by (rule length_concat_option(1))
  have short: "(\<exists>c\<in>set (c0 # cs). \<exists>e. ans c = Inl e)
          \<longrightarrow> (\<forall>r\<in>set ?rows. length r < length ?hs)"
  proof
    assume "\<exists>c\<in>set (c0 # cs). \<exists>e. ans c = Inl e"
    from length_concat_option(2) [OF this] have "length cols < length (c0 # cs)"
      unfolding cols .
    then show "\<forall>r\<in>set ?rows. length r < length ?hs"
      by (auto simp: py_zip_row_length)
  qed
  from run new tr act content count each le short show ?thesis by blast
qed

theorem save_channels_header_and_rows_witness:
  "(\<forall>d. fst (d_query_opc segment_scope d) = Inr True)
   \<and> (\<forall>d. fst (d_query_floats segment_scope (''CHAN{}:DATA:HEAD?'', [PInt 1]) d) = Inr [0, 1, 3, 1])
   \<and> linspace 0 1 (int_of_float 3) = Inr [0, 1 / 2, 1]
   \<and> (\<forall>c d. fst (d_query_floats segment_scope (''CHAN{}:DATA?'', [PInt c]) d)
              = (if c = 2 then Inl (Exn ''StatusException'' [PStr ''Channel is off''])
                 else Inr [1, 2, 3]))
   \<and> (\<forall>p d. d_open_w segment_scope p d = None)
   \<and> channels (self lab) = ChanList [1, 2]
   \<and> (\<exists>w' p. save_channels segment_scope lab = Some (Inr (), w')
      \<and> map_of (files w') p
          = Some [Header [''time (s)'', ''C_1 (V)'', ''C_2 (V)''],
                  Data [0, 1], Data [1 / 2, 2], Data [1, 3]])"
proof -
  let ?ans = "\<lambda>c::int. if c = 2 then Inl (Exn ''StatusException'' [PStr ''Channel is off''])
                 else (Inr [1, 2, 3] :: exn + real list)"
  have O: "\<forall>d. fst (d_query_opc segment_scope d) = Inr True"
    and H: "\<forall>d. fst (d_query_floats segment_scope (''CHAN{}:DATA:HEAD?'', [PInt 1]) d)
              = Inr (0 # 1 # 3 # [1])"
    and A: "\<forall>c d. fst (d_query_floats segment_scope (''CHAN{}:DATA?'', [PInt c]) d) = ?ans c"
    and F: "\<forall>p d. d_open_w segment_scope p d = None"
    by (simp_all add: segment_scope_def bench_def)
  have T: "linspace 0 1 (int_of_float 3) = Inr [0, 1 / 2, 1]"
    by (simp add: linspace_def int_of_float_def upt_3)
  have E: "\<forall>c e. ?ans c = Inl e \<longrightarrow> (\<exists>m a. args e = PStr m # a)" by auto
  have ch: "channels (self lab) = ChanList [1, 2]" by (simp add: lab_def lab_session_def)
  have cols: "[[1, 2, 3]] = concat (map (\<lambda>c. case ?ans c of
                                          Inl e \<Rightarrow> []
                                        | Inr xs \<Rightarrow> if xs = [] then [] else [xs]) [1, 2])"
    by simp
  have names: "map (\<lambda>c. ''C_'' @ str_int c @ '' (V)'') [1, 2] = [''C_1 (V)'', ''C_2 (V)'']"
    by (simp add: str_int_def str_nat_digit digit_char_def)
  from save_channels_header_and_rows [OF O H T A E F ch cols] obtain w' p rows where
    run: "save_channels segment_scope lab = Some (Inr (), w')"
    and content: "map_of (files w') p
          = Some (Header (''time (s)'' # map (\<lambda>c. ''C_'' @ str_int c @ '' (V)'') [1, 2])
                    # map Data rows)"
    and count: "length rows = Min (insert (length [0, 1 / 2, 1 :: real]) (length ` set [[1, 2, 3 :: real]]))"
    and each: "\<forall>i<length rows. rows ! i = [0, 1 / 2, 1] ! i # map (\<lambda>xs. xs ! i) [[1, 2, 3]]"
    by blast
  from count have len: "length rows = 3" by simp
  with each have nth: "rows ! 0 = [0, 1]" "rows ! 1 = [1 / 2, 2]" "rows ! 2 = [1, 3]"
    by simp_all
  have "rows = [[0, 1], [1 / 2, 2], [1, 3]]"
  proof (rule nth_equalityI)
    show "length rows = length [[0, 1], [1 / 2, 2], [1, 3 :: real]]" using len by simp
    fix i
    assume "i < length rows"
    with len have "i = 0 \<or> i = 1 \<or> i = 2" by auto
    with nth show "rows ! i = [[0, 1], [1 / 2, 2], [1, 3]] ! i" by auto
  qed
  with content names have "map_of (files w') p
          = Some [Header [''time (s)'', ''C_1 (V)'', ''C_2 (V)''],
                  Data [0, 1], Data [1 / 2, 2], Data [1, 3]]"
    by simp
  with run O H T A F ch show ?thesis by auto
qed

section \<open>Saving the history\<close>









section \<open>What a call prints, sends and raises\<close>

text \<open>
  An exception \<open>has_message\<close> when its first argument is a string, which is what the
  handlers of the source concatenate. On a driver with \<open>string_errors\<close> every exception
  raised by a driver call is of that kind. \<open>keeps Q S w m\<close> says of the outcome \<open>m\<close> of a
  call started in \<open>w\<close>: if the call returns, it has only added events to the trace, each
  of them satisfying \<open>Q\<close>, and, when \<open>S\<close> holds, an exception it ends with has a message.
  \<open>other_than t\<close> holds of the events that are neither the command \<open>t\<close> nor a printed line
  that begins with \<^verbatim>\<open>M\<close>, as the two record-length warnings do. A predicate is \<open>broad\<close>
  when it admits at least every file save, every command other than the record-length
  and the count command, and every printed line that does not begin with \<^verbatim>\<open>M\<close>.
\<close>

definition has_message :: "exn \<Rightarrow> bool" where
  "has_message e = (case args e of PStr m # a \<Rightarrow> True | _ \<Rightarrow> False)"

definition string_errors :: "'d driver \<Rightarrow> bool" where
  "string_errors drv \<longleftrightarrow>
     (\<forall>c d e. fst (d_write drv c d) = Some e \<longrightarrow> has_message e)
   \<and> (\<forall>c d e. fst (d_query drv c d) = Inl e \<longrightarrow> has_message e)
   \<and> (\<forall>d e. fst (d_query_opc drv d) = Inl e \<longrightarrow> has_message e)
   \<and> (\<forall>c d e. fst (d_query_floats drv c d) = Inl e \<longrightarrow> has_message e)
   \<and> (\<forall>p d e. d_open_w drv p d = Some e \<longrightarrow> has_message e)"

definition keeps ::
  "(event \<Rightarrow> bool) \<Rightarrow> bool \<Rightarrow> 'd world \<Rightarrow> ('a, 'd) outcome option \<Rightarrow> bool"
where
  "keeps Q S w m \<longleftrightarrow>
     (\<forall>r w'. m = Some (r, w') \<longrightarrow>
        (\<exists>evs. trace w' = trace w @ evs \<and> list_all Q evs)
        \<and> (S \<longrightarrow> (\<forall>e. r = Inl e \<longrightarrow> has_message e)))"

fun other_than :: "string \<Rightarrow> event \<Rightarrow> bool" where
  "other_than t (Sent (u, a)) = (u \<noteq> t)"
| "other_than t (Printed (m, a)) = (take 1 m \<noteq> ''M'')"
| "other_than t (Saved p) = True"

definition broad :: "(event \<Rightarrow> bool) \<Rightarrow> bool" where
  "broad Q \<longleftrightarrow>
     (\<forall>u a. u \<noteq> ''ACQ:POIN {}'' \<and> u \<noteq> ''ACQ:NSIN:COUN {}'' \<longrightarrow> Q (Sent (u, a)))
   \<and> (\<forall>m a. take 1 m \<noteq> ''M'' \<longrightarrow> Q (Printed (m, a)))
   \<and> (\<forall>p. Q (Saved p))"


lemma has_message_simps [simp]:
  "has_message (Exn n (PStr m # a))"
  "has_message (attribute_error x)"
  "has_message (concat_type_error ty)"
  by (simp_all add: has_message_def attribute_error_def concat_type_error_def)

lemma string_errorsD:
  assumes "string_errors drv"
  shows "d_write drv c d = (Some e, d') \<Longrightarrow> has_message e"
    and "d_query drv c d = (Inl e, d') \<Longrightarrow> has_message e"
    and "d_query_opc drv d = (Inl e, d') \<Longrightarrow> has_message e"
    and "d_query_floats drv c d = (Inl e, d') \<Longrightarrow> has_message e"
    and "d_open_w drv p d = Some e \<Longrightarrow> has_message e"
  using assms unfolding string_errors_def by (metis fst_conv)+

lemma keeps_None [simp]: "keeps Q S w None"
  by (simp add: keeps_def)

lemma keeps_here [simp]: "keeps Q S w (Some (Inr x, w))"
  by (simp add: keeps_def)

lemma keeps_Inr: "trace w' = trace w @ evs \<Longrightarrow> list_all Q evs \<Longrightarrow> keeps Q S w (Some (Inr x, w'))"
  by (auto simp: keeps_def)

lemma keeps_Inl:
  "trace w' = trace w @ evs \<Longrightarrow> list_all Q evs \<Longrightarrow> (S \<Longrightarrow> has_message e)
   \<Longrightarrow> keeps Q S w (Some (Inl e, w'))"
  by (auto simp: keeps_def)

lemma keeps_later:
  "trace w1 = trace w @ evs \<Longrightarrow> list_all Q evs \<Longrightarrow> keeps Q S w1 m \<Longrightarrow> keeps Q S w m"
  unfolding keeps_def by (metis append.assoc list_all_append)

lemma keeps_same: "trace w1 = trace w \<Longrightarrow> keeps Q S w1 m \<Longrightarrow> keeps Q S w m"
  by (simp add: keeps_def)

lemma keeps_SomeI: "(\<And>y. m = Some y \<Longrightarrow> keeps Q S w (Some y)) \<Longrightarrow> keeps Q S w m"
  by (cases m) simp_all

lemma keeps_and_then:
  assumes "keeps Q S w m"
    and "\<And>x w1. m = Some (Inr x, w1) \<Longrightarrow> keeps Q S w1 (f x w1)"
  shows "keeps Q S w (and_then m f)"
proof (cases m)
  case None
  then show ?thesis by simp
next
  case (Some y)
  obtain r w1 where y: "y = (r, w1)" by (cases y)
  from assms(1) Some y obtain evs where evs: "trace w1 = trace w @ evs" "list_all Q evs"
    by (auto simp: keeps_def)
  show ?thesis
  proof (cases r)
    case (Inl e)
    with assms(1) Some y show ?thesis by (auto simp: keeps_def)
  next
    case (Inr x)
    with assms(2) Some y have "keeps Q S w1 (f x w1)" by simp
    with evs have "keeps Q S w (f x w1)" by (rule keeps_later)
    with Some y Inr show ?thesis by simp
  qed
qed

lemma keeps_try_except:
  assumes "keeps Q S w m"
    and "\<And>e w1. m = Some (Inl e, w1) \<Longrightarrow> (S \<Longrightarrow> has_message e) \<Longrightarrow> keeps Q S w1 (h e w1)"
  shows "keeps Q S w (try_except m h)"
proof (cases m)
  case None
  then show ?thesis by simp
next
  case (Some y)
  obtain r w1 where y: "y = (r, w1)" by (cases y)
  from assms(1) Some y obtain evs where evs: "trace w1 = trace w @ evs" "list_all Q evs"
    by (auto simp: keeps_def)
  show ?thesis
  proof (cases r)
    case (Inr x)
    with assms(1) Some y show ?thesis by simp
  next
    case (Inl e)
    from assms(1) Some y Inl have "S \<Longrightarrow> has_message e" by (simp add: keeps_def)
    with assms(2) Some y Inl have "keeps Q S w1 (h e w1)" by simp
    with evs have "keeps Q S w (h e w1)" by (rule keeps_later)
    with Some y Inl show ?thesis by simp
  qed
qed

lemma keeps_print: "Q (Printed m) \<Longrightarrow> keeps Q S (print m w) k \<Longrightarrow> keeps Q S w k"
  by (rule keeps_later [where evs = "[Printed m]"]) (simp_all add: print_def)

lemma keeps_print_Inr: "Q (Printed m) \<Longrightarrow> keeps Q S w (Some (Inr x, print m w))"
  by (rule keeps_Inr [where evs = "[Printed m]"]) (simp_all add: print_def)

lemma keeps_raise_here: "(S \<Longrightarrow> has_message e) \<Longrightarrow> keeps Q S w (Some (Inl e, w))"
  by (rule keeps_Inl [where evs = "[]"]) simp_all

lemma broad_printed: "broad Q \<Longrightarrow> take 1 m \<noteq> ''M'' \<Longrightarrow> Q (Printed (m, a))"
  by (simp add: broad_def)

lemma broad_sent:
  "broad Q \<Longrightarrow> u \<noteq> ''ACQ:POIN {}'' \<Longrightarrow> u \<noteq> ''ACQ:NSIN:COUN {}'' \<Longrightarrow> Q (Sent (u, a))"
  by (simp add: broad_def)

lemma broad_saved: "broad Q \<Longrightarrow> Q (Saved p)"
  by (simp add: broad_def)

lemma write_str_keeps: "Q (Sent c) \<Longrightarrow> keeps Q (string_errors drv) w (write_str drv c w)"
  by (cases "d_write drv c (dev w)")
     (auto simp: write_str_def keeps_def split: option.splits dest: string_errorsD(1))

lemma query_str_keeps: "keeps Q (string_errors drv) w (query_str drv c w)"
  by (cases "d_query drv c (dev w)")
     (auto simp: query_str_def keeps_def dest: string_errorsD(2))

lemma query_keeps: "keeps Q (string_errors drv) w (query drv c w)"
  by (simp add: query_def query_str_keeps)

lemma query_opc_keeps: "keeps Q (string_errors drv) w (query_opc drv w)"
  by (cases "d_query_opc drv (dev w)")
     (auto simp: query_opc_def keeps_def dest: string_errorsD(3))

lemma query_floats_keeps:
  "keeps Q (string_errors drv) w (query_bin_or_ascii_float_list drv c w)"
  by (cases "d_query_floats drv c (dev w)")
     (auto simp: query_bin_or_ascii_float_list_def keeps_def dest: string_errorsD(4))

lemma opc_loop_body:
  "(case query_opc drv w of
      None \<Rightarrow> None
    | Some (r, w1) \<Rightarrow>
        (case r of
           Inl e \<Rightarrow> Some (Inl e, w1)
         | Inr ready \<Rightarrow> k ready w1))
   = and_then (query_opc drv w) k"
  by (simp add: and_then_def split: option.splits prod.splits sum.splits)

lemma opc_loop_keeps:
  assumes Q: "Q (Printed (''OPC timeout.'', []))"
  shows "keeps Q (string_errors drv) w (opc_loop drv st w)"
proof (rule keeps_SomeI)
  fix y
  assume "opc_loop drv st w = Some y"
  then show "keeps Q (string_errors drv) w (Some y)"
  proof (rule opc_loop.raw_induct
      [where P = "\<lambda>drv st w y. keeps Q (string_errors drv) w (Some y)", rotated])
    fix f :: "'a driver \<Rightarrow> real \<Rightarrow> 'a world \<Rightarrow> (unit, 'a) outcome option"
      and drv st w y
    assume IH: "\<And>drv st w y. f drv st w = Some y \<Longrightarrow> keeps Q (string_errors drv) w (Some y)"
    assume body: "(case query_opc drv w of
        None \<Rightarrow> None
      | Some (r, w1) \<Rightarrow>
          (case r of
             Inl e \<Rightarrow> Some (Inl e, w1)
           | Inr ready \<Rightarrow>
               if ready then Some (Inr (), w1)
               else (case opc_timeout (self w1) of
                       None \<Rightarrow> Some (Inl (attribute_error ''opc_timeout''), w1)
                     | Some t \<Rightarrow>
                         if time_now drv w1 - st > t
                         then Some (Inr (), print (''OPC timeout.'', []) w1)
                         else f drv st (sleep drv (1 / 10) w1)))) = Some y"
    have rec: "keeps Q (string_errors drv) w1 (f drv st w1)" for w1
      by (rule keeps_SomeI) (rule IH)
    have k: "keeps Q (string_errors drv) w1
               (if ready then Some (Inr (), w1)
               else (case opc_timeout (self w1) of
                       None \<Rightarrow> Some (Inl (attribute_error ''opc_timeout''), w1)
                     | Some t \<Rightarrow>
                         if time_now drv w1 - st > t
                         then Some (Inr (), print (''OPC timeout.'', []) w1)
                         else f drv st (sleep drv (1 / 10) w1)))" for ready w1
    proof -
      have "keeps Q (string_errors drv) w1 (f drv st (sleep drv (1 / 10) w1))"
        by (rule keeps_same [OF _ rec]) (simp add: sleep_def)
      then show ?thesis
        by (simp add: keeps_print_Inr Q keeps_raise_here split: option.splits)
    qed
    have "keeps Q (string_errors drv) w
       (and_then (query_opc drv w) (\<lambda>ready w1.
               if ready then Some (Inr (), w1)
               else (case opc_timeout (self w1) of
                       None \<Rightarrow> Some (Inl (attribute_error ''opc_timeout''), w1)
                     | Some t \<Rightarrow>
                         if time_now drv w1 - st > t
                         then Some (Inr (), print (''OPC timeout.'', []) w1)
                         else f drv st (sleep drv (1 / 10) w1))))"
      by (rule keeps_and_then [OF query_opc_keeps]) (rule k)
    then show "keeps Q (string_errors drv) w (Some y)"
      unfolding opc_loop_body [symmetric] body .
  qed
qed


lemma keeps_return [simp]: "keeps Q S w (return x w)"
  by simp

lemma keeps_raise: "(S \<Longrightarrow> has_message e) \<Longrightarrow> keeps Q S w (raise e w)"
  by (simp add: keeps_raise_here)

lemma opc_check_keeps: "broad Q \<Longrightarrow> keeps Q (string_errors drv) w (opc_check drv w)"
  unfolding opc_check_def by (rule opc_loop_keeps) (simp add: broad_def)



lemma print_args0_keeps:
  assumes "broad Q" and "msg \<noteq> []" and "take 1 msg \<noteq> ''M''"
  shows "keeps Q S w (print_args0 msg ex w)"
proof -
  have "take 1 (msg @ s) \<noteq> ''M''" for s
    using assms(2,3) by (cases msg) simp_all
  then have "Q (Printed (msg @ s, []))" for s
    by (rule broad_printed [OF assms(1)])
  then show ?thesis
    by (simp add: print_args0_def concat_args0_def keeps_raise_here keeps_print_Inr
          split: list.splits pyval.splits)
qed

lemma print_args0_after_print_keeps:
  assumes "broad Q" and "take 1 m \<noteq> ''M''" and "msg \<noteq> []" and "take 1 msg \<noteq> ''M''"
  shows "keeps Q S w (print_args0 msg ex (print (m, a) w))"
proof (rule keeps_later [where evs = "[Printed (m, a)]"])
  show "trace (print (m, a) w) = trace w @ [Printed (m, a)]" by (simp add: print_def)
  show "list_all Q [Printed (m, a)]" by (simp add: broad_printed [OF assms(1,2)])
  show "keeps Q S (print (m, a) w) (print_args0 msg ex (print (m, a) w))"
    by (rule print_args0_keeps [OF assms(1,3,4)])
qed

lemma raise_after_print_keeps:
  "Q (Printed m) \<Longrightarrow> (S \<Longrightarrow> has_message e) \<Longrightarrow> keeps Q S w (raise e (print m w))"
  unfolding raise_def
  by (rule keeps_Inl [where evs = "[Printed m]"]) (simp_all add: print_def)

lemma query_data_keeps:
  assumes "broad Q"
  shows "keeps Q (string_errors drv) w (query_data drv c w)"
  unfolding query_data_def
  by (intro keeps_try_except keeps_and_then query_floats_keeps opc_check_keeps
        print_args0_after_print_keeps assms)
     simp_all

lemma query_time_keeps:
  assumes "broad Q"
  shows "keeps Q (string_errors drv) w (query_time drv c w)"
proof -
  have k: "keeps Q (string_errors drv) w2
      (case x of
         a # b # n # _ \<Rightarrow>
           (case linspace a b (int_of_float n) of
              Inl e \<Rightarrow> raise e w2
            | Inr time_data \<Rightarrow> return time_data w2)
       | _ \<Rightarrow> raise (Exn ''IndexError'' [PStr ''list index out of range'']) w2)" for x w2
    by (simp add: keeps_raise_here linspace_def split: list.splits sum.splits)
  show ?thesis
    unfolding query_time_def
    by (intro keeps_try_except keeps_and_then query_floats_keeps opc_check_keeps k
          raise_after_print_keeps assms broad_printed [OF assms])
       simp_all
qed

lemma channels0_keeps: "keeps Q S w (channels0 w)"
  by (simp add: channels0_def keeps_raise_here split: chans.splits list.splits)

lemma opc_wait_keeps: "keeps Q (string_errors drv) w (opc_wait drv w)"
proof (rule keeps_SomeI)
  fix y
  assume "opc_wait drv w = Some y"
  then show "keeps Q (string_errors drv) w (Some y)"
  proof (rule opc_wait.raw_induct
      [where P = "\<lambda>drv w y. keeps Q (string_errors drv) w (Some y)", rotated])
    fix f :: "'a driver \<Rightarrow> 'a world \<Rightarrow> (unit, 'a) outcome option"
      and drv w y
    assume IH: "\<And>drv w y. f drv w = Some y \<Longrightarrow> keeps Q (string_errors drv) w (Some y)"
    assume body: "(case query_opc drv w of
        None \<Rightarrow> None
      | Some (r, w1) \<Rightarrow>
          (case r of
             Inl e \<Rightarrow> Some (Inl e, w1)
           | Inr ready \<Rightarrow>
               if ready then Some (Inr (), w1) else f drv (sleep drv (1 / 10) w1))) = Some y"
    have rec: "keeps Q (string_errors drv) w1 (f drv w1)" for w1
      by (rule keeps_SomeI) (rule IH)
    have k: "keeps Q (string_errors drv) w1
               (if ready then Some (Inr (), w1) else f drv (sleep drv (1 / 10) w1))" for ready w1
    proof -
      have "keeps Q (string_errors drv) w1 (f drv (sleep drv (1 / 10) w1))"
        by (rule keeps_same [OF _ rec]) (simp add: sleep_def)
      then show ?thesis by simp
    qed
    have "keeps Q (string_errors drv) w
       (and_then (query_opc drv w) (\<lambda>ready w1.
               if ready then Some (Inr (), w1) else f drv (sleep drv (1 / 10) w1)))"
      by (rule keeps_and_then [OF query_opc_keeps]) (rule k)
    then show "keeps Q (string_errors drv) w (Some y)"
      unfolding opc_loop_body [symmetric] body .
  qed
qed

lemma collect_keeps:
  assumes "broad Q"
  shows "keeps Q (string_errors drv) w (collect drv cs headers cols w)"
proof (induction cs arbitrary: headers cols w)
  case Nil
  show ?case by simp
next
  case (Cons c cs)
  show ?case
    unfolding collect.simps
    by (intro keeps_and_then query_data_keeps opc_wait_keeps assms Cons.IH)
qed

lemma write_file_keeps:
  assumes "broad Q"
  shows "keeps Q (string_errors drv) w (write_file drv rows headers w)"
proof -
  let ?p = "copy_loop (files w) (file_format (self w)) (base_name (self w))"
  have 1: "Q (Printed (CHR ''S'' # m, a))" for m a
    by (rule broad_printed [OF assms]) simp
  have 2: "Q (Printed (''Save successful! File                   {}.{}                     saved in {}.'', a))" for a
    by (rule broad_printed [OF assms]) simp
  have 3: "Q (Saved p)" for p by (rule broad_saved [OF assms])
  show ?thesis
    by (auto simp: write_file_def check_file_exists_def Let_def print_def keeps_def 1 2 3
        split: option.splits dest: string_errorsD(5))
qed

lemma save_channels_keeps:
  assumes "broad Q"
  shows "keeps Q (string_errors drv) w (save_channels drv w)"
proof -
  have last: "keeps Q (string_errors drv) w3
      (return ()
        (if verbose (self w3)
         then print (''file save in {}s'', [PFloat (time_now drv w3 - t0)]) w3
         else w3))" for w3 t0
    by (simp add: keeps_print_Inr broad_printed [OF assms])
  have mid: "keeps Q (string_errors drv) w1
      (case channels (self w1) of
           Single c \<Rightarrow>
             raise (Exn ''TypeError''
                      [PStr (quoted ''int'' @ '' object is not iterable'')]) w1
         | ChanList cs \<Rightarrow> collect drv cs [''time (s)''] [] w1)" for w1
    by (simp add: keeps_raise_here collect_keeps [OF assms] split: chans.splits)
  show ?thesis
    unfolding save_channels_def Let_def
    apply (intro keeps_and_then channels0_keeps query_time_keeps assms mid)
    apply (simp only: split_def)
    apply (intro keeps_and_then write_file_keeps assms last)
    done
qed

lemma history_loop_keeps:
  assumes "broad Q"
  shows "keeps Q (string_errors drv) w (history_loop drv is w)"
proof (induction "is" arbitrary: w)
  case Nil
  show ?case by simp
next
  case (Cons i "is")
  have sent: "Q (Sent (''CHAN{}:HIST:CURR {}'', a))" for a
    by (rule broad_sent [OF assms]) simp_all
  have save: "keeps Q (string_errors drv) w2
      (save_channels drv (w2\<lparr>self := (self w2)\<lparr>fname := fname (self w2) @ str_nat (i + 1)\<rparr>\<rparr>))"
    for w2
    by (rule keeps_same [OF _ save_channels_keeps [OF assms]]) simp
  show ?case
    unfolding history_loop.simps
    by (intro keeps_and_then channels0_keeps write_str_keeps sent opc_check_keeps assms save
          Cons.IH)
qed

lemma save_history_keeps:
  assumes "broad Q"
  shows "keeps Q (string_errors drv) w (save_history drv w)"
proof -
  have k: "keeps Q (string_errors drv) w1
      (case py_int available of
            Inl e \<Rightarrow> raise e w1
          | Inr k \<Rightarrow> history_loop drv [0..<nat k] w1)" for available w1
    by (simp add: py_int_def Let_def keeps_raise_here history_loop_keeps [OF assms]
          split: sum.splits option.splits)
  show ?thesis
    unfolding save_history_def
    by (intro keeps_try_except keeps_and_then query_str_keeps k print_args0_keeps assms) simp_all
qed


lemma keeps_if:
  "(c \<Longrightarrow> keeps Q S w a) \<Longrightarrow> (\<not> c \<Longrightarrow> keeps Q S w b) \<Longrightarrow> keeps Q S w (if c then a else b)"
  by simp

lemma poll_body:
  "(case m of
      None \<Rightarrow> None
    | Some (r, w1) \<Rightarrow>
        (case r of
           Inl e \<Rightarrow> Some (Inl e, w1)
         | Inr x \<Rightarrow> k x w1))
   = and_then m k"
  by (simp add: and_then_def split: option.splits prod.splits sum.splits)

lemma average_loop_keeps:
  assumes "broad Q"
  shows "keeps Q (string_errors drv) w (average_loop drv st w)"
proof (rule keeps_SomeI)
  fix y
  assume "average_loop drv st w = Some y"
  then show "keeps Q (string_errors drv) w (Some y)"
  proof (rule average_loop.raw_induct
      [where P = "\<lambda>drv st w y. keeps Q (string_errors drv) w (Some y)", rotated])
    fix f :: "'a driver \<Rightarrow> real \<Rightarrow> 'a world \<Rightarrow> (unit, 'a) outcome option"
      and drv st w y
    assume IH: "\<And>drv st w y. f drv st w = Some y \<Longrightarrow> keeps Q (string_errors drv) w (Some y)"
    assume body: "(case query drv (''ACQ:AVER:COMP?'', []) w of
        None \<Rightarrow> None
      | Some (r, w1) \<Rightarrow>
          (case r of
             Inl e \<Rightarrow> Some (Inl e, w1)
           | Inr answer \<Rightarrow>
               if answer \<noteq> ''1''
               then (case acquisition_timeout (self w1) of
                       None \<Rightarrow> Some (Inl (attribute_error ''acquisition_timeout''), w1)
                     | Some t \<Rightarrow>
                         if time_now drv w1 - st > t
                         then Some (Inr (), print (''Average acquisition timeout.'', []) w1)
                         else f drv st
                                (sleep drv 1
                                   (if verbose (self w1) then print (''Acquiring...'', []) w1
                                    else w1)))
               else Some (Inr (), w1))) = Some y"
    have rec: "keeps Q (string_errors drv) w1 (f drv st w1)" for w1
      by (rule keeps_SomeI) (rule IH)
    have k: "keeps Q (string_errors drv) w1
               (if answer \<noteq> ''1''
               then (case acquisition_timeout (self w1) of
                       None \<Rightarrow> Some (Inl (attribute_error ''acquisition_timeout''), w1)
                     | Some t \<Rightarrow>
                         if time_now drv w1 - st > t
                         then Some (Inr (), print (''Average acquisition timeout.'', []) w1)
                         else f drv st
                                (sleep drv 1
                                   (if verbose (self w1) then print (''Acquiring...'', []) w1
                                    else w1)))
               else Some (Inr (), w1))" for answer w1
    proof -
      have "keeps Q (string_errors drv) w1 (f drv st (sleep drv 1 (print (''Acquiring...'', []) w1)))"
        by (rule keeps_later [where evs = "[Printed (''Acquiring...'', [])]", OF _ _ rec])
           (simp_all add: sleep_def print_def broad_printed [OF assms])
      moreover have "keeps Q (string_errors drv) w1 (f drv st (sleep drv 1 w1))"
        by (rule keeps_same [OF _ rec]) (simp add: sleep_def)
      ultimately show ?thesis
        by (simp add: keeps_print_Inr broad_printed [OF assms] keeps_raise_here
              split: option.splits)
    qed
    have "keeps Q (string_errors drv) w
       (and_then (query drv (''ACQ:AVER:COMP?'', []) w) (\<lambda>answer w1.
               if answer \<noteq> ''1''
               then (case acquisition_timeout (self w1) of
                       None \<Rightarrow> Some (Inl (attribute_error ''acquisition_timeout''), w1)
                     | Some t \<Rightarrow>
                         if time_now drv w1 - st > t
                         then Some (Inr (), print (''Average acquisition timeout.'', []) w1)
                         else f drv st
                                (sleep drv 1
                                   (if verbose (self w1) then print (''Acquiring...'', []) w1
                                    else w1)))
               else Some (Inr (), w1)))"
      by (rule keeps_and_then [OF query_keeps]) (rule k)
    then show "keeps Q (string_errors drv) w (Some y)"
      unfolding poll_body [symmetric] body .
  qed
qed

lemma average_keeps:
  assumes "broad Q" and N: "\<And>a. Q (Sent (''ACQ:NSIN:COUN {}'', a))"
  shows "keeps Q (string_errors drv) w (average drv n w)"
  unfolding average_def Let_def
  by (intro keeps_try_except keeps_and_then write_str_keeps average_loop_keeps
        print_args0_keeps assms(1))
     (simp_all add: broad_sent [OF assms(1)] N)

lemma check_hist_values_keeps: "keeps Q (string_errors drv) w (check_hist_values drv w)"
  unfolding check_hist_values_def
  by (intro keeps_and_then query_keeps) simp

lemma acquire_arm_keeps:
  assumes "broad Q" and N: "\<And>a. Q (Sent (''ACQ:NSIN:COUN {}'', a))"
  shows "keeps Q (string_errors drv) w (acquire_arm drv mode n w)"
proof -
  have first: "keeps Q (string_errors drv) w1
      (if n > m
              then return m
                     (if verbose (self w1)
                      then print (''Number of segments exceeds max segments.                               Setting samples (N) to {}'',
                                  [PInt m]) w1
                      else w1)
              else return n w1)" for m w1
    by (simp add: keeps_print_Inr broad_printed [OF assms(1)])
  have count: "keeps Q (string_errors drv) w3
      (if py_in ''NSING'' mode
              then and_then (write_str drv (''ACQ:NSIN:COUN {}'', [PInt n1]) w3)
                     (\<lambda>_ w4. return True w4)
              else and_then (write_str drv (''ACQ:NSIN:COUN {}'', [PInt 1]) w3)
                     (\<lambda>_ w4. return False w4))" for n1 w3
    by (intro keeps_if keeps_and_then write_str_keeps N) simp_all
  have rest: "keeps Q (string_errors drv) w1
      (case py_int max_segments of
         Inl e \<Rightarrow> raise e w1
       | Inr m \<Rightarrow>
           and_then
             (if n > m
              then return m
                     (if verbose (self w1)
                      then print (''Number of segments exceeds max segments.                               Setting samples (N) to {}'',
                                  [PInt m]) w1
                      else w1)
              else return n w1) (\<lambda>N1 w2.
           and_then (write_str drv (''ACQ:TYPE REFR'', []) w2) (\<lambda>_ w3.
           and_then
             (if py_in ''NSING'' mode
              then and_then (write_str drv (''ACQ:NSIN:COUN {}'', [PInt N1]) w3)
                     (\<lambda>_ w4. return True w4)
              else and_then (write_str drv (''ACQ:NSIN:COUN {}'', [PInt 1]) w3)
                     (\<lambda>_ w4. return False w4)) (\<lambda>hist w5.
           and_then (write_str drv (''RUNS'', []) w5) (\<lambda>_ w6.
           return hist w6)))))" for max_segments w1
  proof (cases "py_int max_segments")
    case (Inl e)
    then have "has_message e"
      by (auto simp: py_int_def Let_def split: option.splits)
    with Inl show ?thesis by (simp add: keeps_raise_here)
  next
    case (Inr m)
    show ?thesis
      unfolding Inr sum.case
      by (intro keeps_and_then first count write_str_keeps)
         (simp_all add: broad_sent [OF assms(1)])
  qed
  show ?thesis
    unfolding acquire_arm_def
    apply (rule keeps_and_then [OF check_hist_values_keeps])
    apply (simp only: split_def)
    apply (rule rest)
    done
qed

lemma acquire_poll_keeps:
  assumes "broad Q"
  shows "keeps Q (string_errors drv) w (acquire_poll drv w)"
proof (rule keeps_SomeI)
  fix y
  assume "acquire_poll drv w = Some y"
  then show "keeps Q (string_errors drv) w (Some y)"
  proof (rule acquire_poll.raw_induct
      [where P = "\<lambda>drv w y. keeps Q (string_errors drv) w (Some y)", rotated])
    fix f :: "'a driver \<Rightarrow> 'a world \<Rightarrow> (unit, 'a) outcome option"
      and drv w y
    assume IH: "\<And>drv w y. f drv w = Some y \<Longrightarrow> keeps Q (string_errors drv) w (Some y)"
    assume body: "(case query drv (''ACQ:STAT?'', []) w of
        None \<Rightarrow> None
      | Some (r, w1) \<Rightarrow>
          (case r of
             Inl e \<Rightarrow> Some (Inl e, w1)
           | Inr status \<Rightarrow>
               if status \<noteq> ''COMP''
               then f drv
                      (if verbose (self w1) then print (''Acquiring...'', []) (sleep drv 1 w1)
                       else sleep drv 1 w1)
               else Some (Inr (), w1))) = Some y"
    have rec: "keeps Q (string_errors drv) w1 (f drv w1)" for w1
      by (rule keeps_SomeI) (rule IH)
    have k: "keeps Q (string_errors drv) w1
               (if status \<noteq> ''COMP''
               then f drv
                      (if verbose (self w1) then print (''Acquiring...'', []) (sleep drv 1 w1)
                       else sleep drv 1 w1)
               else Some (Inr (), w1))" for status w1
    proof -
      have "keeps Q (string_errors drv) w1 (f drv (print (''Acquiring...'', []) (sleep drv 1 w1)))"
        by (rule keeps_later [where evs = "[Printed (''Acquiring...'', [])]", OF _ _ rec])
           (simp_all add: sleep_def print_def broad_printed [OF assms])
      moreover have "keeps Q (string_errors drv) w1 (f drv (sleep drv 1 w1))"
        by (rule keeps_same [OF _ rec]) (simp add: sleep_def)
      ultimately show ?thesis by simp
    qed
    have "keeps Q (string_errors drv) w
       (and_then (query drv (''ACQ:STAT?'', []) w) (\<lambda>status w1.
               if status \<noteq> ''COMP''
               then f drv
                      (if verbose (self w1) then print (''Acquiring...'', []) (sleep drv 1 w1)
                       else sleep drv 1 w1)
               else Some (Inr (), w1)))"
      by (rule keeps_and_then [OF query_keeps]) (rule k)
    then show "keeps Q (string_errors drv) w (Some y)"
      unfolding poll_body [symmetric] body .
  qed
qed

lemma finish_keeps:
  assumes "broad Q" and "keeps Q (string_errors drv) w m"
  shows "keeps Q (string_errors drv) w
      (try_except
         (and_then
            (and_then m (\<lambda>hist w4.
               if save (self w4)
               then (if hist then save_history drv w4 else save_channels drv w4)
               else return () w4))
            (\<lambda>_ w1. return True w1))
         (\<lambda>ex w1.
            and_then (print_args0 ''Error while acquiring data'' ex w1)
              (\<lambda>_ w2. return False w2)))"
proof -
  have k: "keeps Q (string_errors drv) w4
      (if save (self w4)
               then (if hist then save_history drv w4 else save_channels drv w4)
               else return () w4)" for hist w4
    by (intro keeps_if save_history_keeps save_channels_keeps assms(1)) simp
  show ?thesis
    by (intro keeps_try_except keeps_and_then assms(2) k print_args0_keeps assms(1)) simp_all
qed




section \<open>Acquisition\<close>

text \<open>
  \<open>length_warnings evs\<close> lists the record-length warnings among the lines printed in
  \<open>evs\<close>. The set-up block and the arming block of \<^verbatim>\<open>acquire\<close> complete on an instrument
  that accepts the commands and answers the queries; the poll ends at once when the
  instrument reports \<^verbatim>\<open>COMP\<close>; what follows the set-up block sends no record length, and
  what follows the arming block sends no count.
\<close>

definition length_warnings :: "event list \<Rightarrow> fstr list" where
  "length_warnings evs =
     filter (\<lambda>m. m = (''Maximum record length exceeded.                          Setting to maximum: 40MSa'', [])
                \<or> m = (''Minimum record length exceeded.                          Setting to minimum: 5kSa'', []))
       (printed evs)"

lemma length_warnings_append [simp]:
  "length_warnings (xs @ ys) = length_warnings xs @ length_warnings ys"
  by (simp add: length_warnings_def)

lemma other_than_quiet:
  "list_all (other_than t) evs \<Longrightarrow> sent_args t evs = [] \<and> length_warnings evs = []"
proof (induction evs)
  case Nil
  show ?case by (simp add: length_warnings_def)
next
  case (Cons e evs)
  then have IH: "sent_args t evs = []" "length_warnings evs = []" by simp_all
  from Cons.prems have e: "other_than t e" by simp
  show ?case
  proof (cases e)
    case (Sent c)
    with e IH show ?thesis by (cases c) (auto simp: length_warnings_def)
  next
    case (Printed m)
    with e IH show ?thesis by (cases m) (auto simp: length_warnings_def)
  next
    case (Saved p)
    with IH show ?thesis by (simp add: length_warnings_def)
  qed
qed

lemma broad_other_than:
  "t = ''ACQ:POIN {}'' \<or> t = ''ACQ:NSIN:COUN {}'' \<Longrightarrow> broad (other_than t)"
  by (auto simp: broad_def)

lemma acquire_setup_accepted:
  assumes W: "\<forall>c d. fst (d_write drv c d) = None"
    and O: "\<forall>d. fst (d_query_opc drv d) = Inr True"
  shows "\<exists>w1 evs. acquire_setup drv auto L w = Some (Inr (), w1)
           \<and> trace w1 = trace w @ evs
           \<and> save (self w1) = save (self w)
           \<and> sent_args ''ACQ:NSIN:COUN {}'' evs = []
           \<and> sent_args ''ACQ:POIN {}'' evs
               = (if auto then [] else [[PFloat (max 5000 (min 40000000 L))]])
           \<and> printed evs =
               (if auto then []
                else if L > 40000000 then [(''Maximum record length exceeded.                          Setting to maximum: 40MSa'', [])]
                else if L < 5000 then [(''Minimum record length exceeded.                          Setting to minimum: 5kSa'', [])]
                else [])"
proof -
  from channel_select_accepted [OF W O, of w] obtain d' where
    cs: "channel_select drv w
           = Some (Inr (), w\<lparr>dev := d',
                self := (self w)\<lparr>channels := ChanList (chan_list (channels (self w)))\<rparr>,
                trace := trace w @ Sent (''CHAN:AOFF'', [])
                           # map (\<lambda>c. Sent (''CHAN{}:STAT ON'', [PInt c]))
                               (chan_list (channels (self w)))\<rparr>)"
    by blast
  show ?thesis
    using W by (cases auto) (simp_all add: acquire_setup_def cs write_str_accepted print_def)
qed

lemma acquire_arm_accepted:
  assumes W: "\<forall>c d. fst (d_write drv c d) = None"
    and P: "\<forall>d. \<exists>s. fst (d_query drv (''ACQ:POIN?'', []) d) = Inr s"
    and C: "\<forall>d. \<exists>s. fst (d_query drv (''ACQ:COUN?'', []) d) = Inr s \<and> py_int s = Inr M"
  shows "\<exists>w2 evs. acquire_arm drv mode N w = Some (Inr (py_in ''NSING'' mode), w2)
           \<and> trace w2 = trace w @ evs
           \<and> save (self w2) = save (self w)
           \<and> sent_args ''ACQ:NSIN:COUN {}'' evs
               = [[PInt (if py_in ''NSING'' mode then min N M else 1)]]"
proof -
  from P obtain s1 where s1: "fst (d_query drv (''ACQ:POIN?'', []) (dev w)) = Inr s1"
    by blast
  let ?w1 = "w\<lparr>dev := snd (d_query drv (''ACQ:POIN?'', []) (dev w))\<rparr>"
  from C obtain s2 where s2: "fst (d_query drv (''ACQ:COUN?'', []) (dev ?w1)) = Inr s2"
    and M: "py_int s2 = Inr M"
    by blast
  have hist: "check_hist_values drv w
      = Some (Inr (s1, s2), ?w1\<lparr>dev := snd (d_query drv (''ACQ:COUN?'', []) (dev ?w1))\<rparr>)"
    using s1 s2 by (simp add: check_hist_values_def query_def query_str_answered)
  show ?thesis
    using W M
    by (cases "py_in ''NSING'' mode")
       (simp_all add: acquire_arm_def hist write_str_accepted print_def min_def)
qed

lemma acquire_poll_complete:
  "fst (d_query drv (''ACQ:STAT?'', []) (dev w)) = Inr ''COMP''
   \<Longrightarrow> acquire_poll drv w
       = Some (Inr (), w\<lparr>dev := snd (d_query drv (''ACQ:STAT?'', []) (dev w))\<rparr>)"
  by (cases "d_query drv (''ACQ:STAT?'', []) (dev w)")
     (simp add: acquire_poll.simps [of drv w] query_def query_str_def)

lemma acquire_succeeds:
  assumes W: "\<forall>c d. fst (d_write drv c d) = None"
    and O: "\<forall>d. fst (d_query_opc drv d) = Inr True"
    and P: "\<forall>d. \<exists>s. fst (d_query drv (''ACQ:POIN?'', []) d) = Inr s"
    and C: "\<forall>d. \<exists>s. fst (d_query drv (''ACQ:COUN?'', []) d) = Inr s \<and> py_int s = Inr M"
    and S: "\<forall>d. fst (d_query drv (''ACQ:STAT?'', []) d) = Inr ''COMP''"
    and mode: "\<not> py_in ''AVER'' mode"
    and save: "\<not> save (self w)"
  shows "\<exists>w'. acquire drv mode N auto L w = Some (Inr True, w')"
proof -
  from acquire_setup_accepted [OF W O, of auto L w] obtain w1 where
    su: "acquire_setup drv auto L w = Some (Inr (), w1)" and s1: "save (self w1) = save (self w)"
    by blast
  from acquire_arm_accepted [OF W P C, of mode N w1] obtain w2 where
    arm: "acquire_arm drv mode N w1 = Some (Inr (py_in ''NSING'' mode), w2)"
    and s2: "save (self w2) = save (self w1)"
    by blast
  have poll: "acquire_poll drv w2
      = Some (Inr (), w2\<lparr>dev := snd (d_query drv (''ACQ:STAT?'', []) (dev w2))\<rparr>)"
    using S by (simp add: acquire_poll_complete)
  show ?thesis
    using mode save s1 s2
    by (simp add: acquire_def acquire_body_def su arm poll)
qed

lemma acquire_after_setup:
  "acquire_setup drv auto L w = Some (Inr (), w1)
   \<Longrightarrow> acquire drv mode N auto L w
     = try_except
         (and_then
            (and_then
               (if py_in ''AVER'' mode
                then and_then (average drv N w1) (\<lambda>_ w2. return False w2)
                else and_then (acquire_arm drv mode N w1) (\<lambda>hist w2.
                     and_then (acquire_poll drv w2) (\<lambda>_ w3. return hist w3)))
               (\<lambda>hist w4.
                  if save (self w4)
                  then (if hist then save_history drv w4 else save_channels drv w4)
                  else return () w4))
            (\<lambda>_ w1. return True w1))
         (\<lambda>ex w1.
            and_then (print_args0 ''Error while acquiring data'' ex w1)
              (\<lambda>_ w2. return False w2))"
  by (simp only: acquire_def acquire_body_def and_then_simps)

lemma acquire_after_arm:
  "acquire_setup drv auto L w = Some (Inr (), w1) \<Longrightarrow> \<not> py_in ''AVER'' mode
   \<Longrightarrow> acquire_arm drv mode N w1 = Some (Inr hist, w2)
   \<Longrightarrow> acquire drv mode N auto L w
     = try_except
         (and_then
            (and_then
               (and_then (acquire_poll drv w2) (\<lambda>_ w3. return hist w3))
               (\<lambda>hist w4.
                  if save (self w4)
                  then (if hist then save_history drv w4 else save_channels drv w4)
                  else return () w4))
            (\<lambda>_ w1. return True w1))
         (\<lambda>ex w1.
            and_then (print_args0 ''Error while acquiring data'' ex w1)
              (\<lambda>_ w2. return False w2))"
  by (simp only: acquire_def acquire_body_def and_then_simps if_False)

lemma keeps_SomeD:
  "keeps Q S w m \<Longrightarrow> m = Some (r, w') \<Longrightarrow> \<exists>evs. trace w' = trace w @ evs \<and> list_all Q evs"
  by (simp add: keeps_def)

lemma segment_scope_answers:
  "\<forall>d. \<exists>s. fst (d_query segment_scope (''ACQ:POIN?'', []) d) = Inr s"
  "\<forall>d. \<exists>s. fst (d_query segment_scope (''ACQ:COUN?'', []) d) = Inr s \<and> py_int s = Inr 4"
  "\<forall>d. fst (d_query segment_scope (''ACQ:STAT?'', []) d) = Inr ''COMP''"
  by (simp_all add: segment_scope_def bench_def py_int_4)

text \<open>
  \<^bold>\<open>C6\<close>. \<^verbatim>\<open>acquire\<close> is called with \<^verbatim>\<open>auto=False\<close> and the record length \<open>L\<close>, in any mode
  and with any count, on an instrument that accepts the commands and reports every
  operation complete. The set-up block then completes, having sent exactly one
  record-length command, whose value is \<open>L\<close> clamped to the range from 5000 to 40000000,
  and having printed the maximum warning exactly when \<open>L\<close> is above the range, the minimum
  warning exactly when \<open>L\<close> is below it, and nothing when \<open>L\<close> is inside. Whenever
  \<^verbatim>\<open>acquire\<close> returns, with whatever result, the commands it has sent hold exactly that one
  record-length command, and the record-length warnings it has printed are exactly that
  one, or none: nothing after the set-up block sends a record length. And \<^verbatim>\<open>acquire\<close> does
  return, with \<^verbatim>\<open>True\<close>, when the mode is not an average, nothing is to be saved, and the
  instrument answers the two history queries and reports the acquisition complete.
\<close>

theorem acquire_record_length_clamped:
  assumes W: "\<forall>c d. fst (d_write drv c d) = None"
    and O: "\<forall>d. fst (d_query_opc drv d) = Inr True"
  shows "(\<exists>w1 evs. acquire_setup drv False L w = Some (Inr (), w1)
           \<and> trace w1 = trace w @ evs
           \<and> sent_args ''ACQ:POIN {}'' evs = [[PFloat (max 5000 (min 40000000 L))]]
           \<and> printed evs =
               (if L > 40000000 then [(''Maximum record length exceeded.                          Setting to maximum: 40MSa'', [])]
                else if L < 5000 then [(''Minimum record length exceeded.                          Setting to minimum: 5kSa'', [])]
                else []))
      \<and> (\<forall>r w'. acquire drv mode N False L w = Some (r, w') \<longrightarrow>
            (\<exists>evs. trace w' = trace w @ evs
               \<and> sent_args ''ACQ:POIN {}'' evs = [[PFloat (max 5000 (min 40000000 L))]]
               \<and> length_warnings evs =
                   (if L > 40000000 then [(''Maximum record length exceeded.                          Setting to maximum: 40MSa'', [])]
                    else if L < 5000 then [(''Minimum record length exceeded.                          Setting to minimum: 5kSa'', [])]
                    else [])))
      \<and> ((\<forall>d. \<exists>s. fst (d_query drv (''ACQ:POIN?'', []) d) = Inr s)
           \<and> (\<exists>M. \<forall>d. \<exists>s. fst (d_query drv (''ACQ:COUN?'', []) d) = Inr s \<and> py_int s = Inr M)
           \<and> (\<forall>d. fst (d_query drv (''ACQ:STAT?'', []) d) = Inr ''COMP'')
           \<and> \<not> py_in ''AVER'' mode \<and> \<not> save (self w)
          \<longrightarrow> (\<exists>w'. acquire drv mode N False L w = Some (Inr True, w')))"
proof -
  let ?t = "''ACQ:POIN {}''"
  let ?warn = "if L > 40000000 then [(''Maximum record length exceeded.                          Setting to maximum: 40MSa'', [])]
                else if L < 5000 then [(''Minimum record length exceeded.                          Setting to minimum: 5kSa'', [])]
                else []"
  from acquire_setup_accepted [OF W O, of False L w] obtain w1 evs1 where
    su: "acquire_setup drv False L w = Some (Inr (), w1)"
    and tr1: "trace w1 = trace w @ evs1"
    and sent1: "sent_args ?t evs1 = [[PFloat (max 5000 (min 40000000 L))]]"
    and pr1: "printed evs1 = ?warn"
    by auto
  have b: "broad (other_than ?t)" by (simp add: broad_other_than)
  have warn1: "length_warnings evs1 = ?warn"
    by (simp add: length_warnings_def pr1)
  have m: "keeps (other_than ?t) (string_errors drv) w1
      (if py_in ''AVER'' mode
                then and_then (average drv N w1) (\<lambda>_ w2. return False w2)
                else and_then (acquire_arm drv mode N w1) (\<lambda>hist w2.
                     and_then (acquire_poll drv w2) (\<lambda>_ w3. return hist w3)))"
    by (intro keeps_if keeps_and_then average_keeps acquire_arm_keeps acquire_poll_keeps b)
       simp_all
  have k: "keeps (other_than ?t) (string_errors drv) w1 (acquire drv mode N False L w)"
    unfolding acquire_after_setup [OF su] by (rule finish_keeps [OF b m])
  have whole: "\<exists>evs. trace w' = trace w @ evs
               \<and> sent_args ?t evs = [[PFloat (max 5000 (min 40000000 L))]]
               \<and> length_warnings evs = ?warn"
    if "acquire drv mode N False L w = Some (r, w')" for r w'
  proof -
    from keeps_SomeD [OF k that] obtain evs2 where
      tr2: "trace w' = trace w1 @ evs2" and q: "list_all (other_than ?t) evs2"
      by blast
    from other_than_quiet [OF q] have "sent_args ?t evs2 = []" "length_warnings evs2 = []"
      by simp_all
    with tr1 tr2 sent1 warn1 show ?thesis
      by (intro exI [of _ "evs1 @ evs2"]) simp
  qed
  have total: "\<exists>w'. acquire drv mode N False L w = Some (Inr True, w')"
    if "\<forall>d. \<exists>s. fst (d_query drv (''ACQ:POIN?'', []) d) = Inr s"
      and "\<forall>d. \<exists>s. fst (d_query drv (''ACQ:COUN?'', []) d) = Inr s \<and> py_int s = Inr M"
      and "\<forall>d. fst (d_query drv (''ACQ:STAT?'', []) d) = Inr ''COMP''"
      and "\<not> py_in ''AVER'' mode" and "\<not> save (self w)" for M
    using acquire_succeeds [OF W O that] .
  from su tr1 sent1 pr1 whole total show ?thesis by blast
qed

theorem acquire_record_length_clamped_witness:
  "(\<forall>c d. fst (d_write segment_scope c d) = None)
   \<and> (\<forall>d. fst (d_query_opc segment_scope d) = Inr True)
   \<and> (\<exists>w' evs. acquire segment_scope ''SINGle'' 1 False 50000000 lab = Some (Inr True, w')
           \<and> trace w' = trace lab @ evs
           \<and> sent_args ''ACQ:POIN {}'' evs = [[PFloat 40000000]]
           \<and> length_warnings evs = [(''Maximum record length exceeded.                          Setting to maximum: 40MSa'', [])])"
proof -
  note W = segment_scope_behaves(5) and O = segment_scope_behaves(1)
  note inst = acquire_record_length_clamped
    [OF W O, where L = 50000000 and w = lab and mode = "''SINGle''" and N = 1]
  have mode: "\<not> py_in ''AVER'' ''SINGle''" by simp
  have save: "\<not> save (self lab)" by (simp add: lab_def lab_session_def)
  from inst segment_scope_answers mode save obtain w' where
    run: "acquire segment_scope ''SINGle'' 1 False 50000000 lab = Some (Inr True, w')"
    by blast
  with inst obtain evs where
    "trace w' = trace lab @ evs"
    "sent_args ''ACQ:POIN {}'' evs = [[PFloat (max 5000 (min 40000000 50000000))]]"
    "length_warnings evs =
       (if (50000000::real) > 40000000 then [(''Maximum record length exceeded.                          Setting to maximum: 40MSa'', [])]
        else if (50000000::real) < 5000 then [(''Minimum record length exceeded.                          Setting to minimum: 5kSa'', [])]
        else [])"
    by blast
  with run W O show ?thesis by simp
qed

text \<open>
  \<^bold>\<open>C7\<close>. \<^verbatim>\<open>acquire\<close> is called in a mode that contains \<^verbatim>\<open>NSING\<close> and not \<^verbatim>\<open>AVER\<close> (the test for
  \<^verbatim>\<open>AVER\<close> comes first in the source, and an average sends the count 1), with the count
  \<open>N\<close>, on an instrument that accepts the commands, reports every operation complete and
  answers \<^verbatim>\<open>ACQ:COUN?\<close> with a string that reads as the number \<open>M\<close>. Then the set-up and
  arming blocks complete with the history flag set, having sent exactly one count command,
  with the smaller of \<open>N\<close> and \<open>M\<close>. Whenever \<^verbatim>\<open>acquire\<close> returns, the commands it has sent
  hold exactly that one count command: neither the poll nor the saving sends another.
  And \<^verbatim>\<open>acquire\<close> does return, with \<^verbatim>\<open>True\<close>, when nothing is to be saved and the
  instrument reports the acquisition complete.
\<close>

theorem acquire_count_is_min:
  assumes W: "\<forall>c d. fst (d_write drv c d) = None"
    and O: "\<forall>d. fst (d_query_opc drv d) = Inr True"
    and P: "\<forall>d. \<exists>s. fst (d_query drv (''ACQ:POIN?'', []) d) = Inr s"
    and C: "\<forall>d. \<exists>s. fst (d_query drv (''ACQ:COUN?'', []) d) = Inr s \<and> py_int s = Inr M"
    and nsing: "py_in ''NSING'' mode"
    and naver: "\<not> py_in ''AVER'' mode"
  shows "(\<exists>w1 w2 evs. acquire_setup drv auto L w = Some (Inr (), w1)
           \<and> acquire_arm drv mode N w1 = Some (Inr True, w2)
           \<and> trace w2 = trace w @ evs
           \<and> sent_args ''ACQ:NSIN:COUN {}'' evs = [[PInt (min N M)]])
      \<and> (\<forall>r w'. acquire drv mode N auto L w = Some (r, w') \<longrightarrow>
            (\<exists>evs. trace w' = trace w @ evs
               \<and> sent_args ''ACQ:NSIN:COUN {}'' evs = [[PInt (min N M)]]))
      \<and> ((\<forall>d. fst (d_query drv (''ACQ:STAT?'', []) d) = Inr ''COMP'') \<and> \<not> save (self w)
          \<longrightarrow> (\<exists>w'. acquire drv mode N auto L w = Some (Inr True, w')))"
proof -
  let ?t = "''ACQ:NSIN:COUN {}''"
  from acquire_setup_accepted [OF W O, of auto L w] obtain w1 evs1 where
    su: "acquire_setup drv auto L w = Some (Inr (), w1)"
    and tr1: "trace w1 = trace w @ evs1"
    and sent1: "sent_args ?t evs1 = []"
    by blast
  from acquire_arm_accepted [OF W P C, of mode N w1] nsing obtain w2 evs2 where
    arm: "acquire_arm drv mode N w1 = Some (Inr True, w2)"
    and tr2: "trace w2 = trace w1 @ evs2"
    and sent2: "sent_args ?t evs2 = [[PInt (min N M)]]"
    by auto
  have before: "trace w2 = trace w @ (evs1 @ evs2)"
    "sent_args ?t (evs1 @ evs2) = [[PInt (min N M)]]"
    using tr1 tr2 sent1 sent2 by simp_all
  have b: "broad (other_than ?t)" by (simp add: broad_other_than)
  have m: "keeps (other_than ?t) (string_errors drv) w2
      (and_then (acquire_poll drv w2) (\<lambda>_ w3. return True w3))"
    by (intro keeps_and_then acquire_poll_keeps b) simp
  have k: "keeps (other_than ?t) (string_errors drv) w2 (acquire drv mode N auto L w)"
    unfolding acquire_after_arm [OF su naver arm] by (rule finish_keeps [OF b m])
  have whole: "\<exists>evs. trace w' = trace w @ evs \<and> sent_args ?t evs = [[PInt (min N M)]]"
    if "acquire drv mode N auto L w = Some (r, w')" for r w'
  proof -
    from keeps_SomeD [OF k that] obtain evs3 where
      tr3: "trace w' = trace w2 @ evs3" and q: "list_all (other_than ?t) evs3"
      by blast
    from other_than_quiet [OF q] have "sent_args ?t evs3 = []" by simp
    with before tr3 show ?thesis
      by (intro exI [of _ "evs1 @ evs2 @ evs3"]) simp
  qed
  have total: "\<exists>w'. acquire drv mode N auto L w = Some (Inr True, w')"
    if "\<forall>d. fst (d_query drv (''ACQ:STAT?'', []) d) = Inr ''COMP''" and "\<not> save (self w)"
    using acquire_succeeds [OF W O P C that(1) naver that(2)] .
  from su arm before whole total show ?thesis by blast
qed

theorem acquire_count_is_min_witness:
  "(\<forall>c d. fst (d_write segment_scope c d) = None)
   \<and> (\<forall>d. fst (d_query_opc segment_scope d) = Inr True)
   \<and> (\<forall>d. \<exists>s. fst (d_query segment_scope (''ACQ:POIN?'', []) d) = Inr s)
   \<and> (\<forall>d. \<exists>s. fst (d_query segment_scope (''ACQ:COUN?'', []) d) = Inr s \<and> py_int s = Inr 4)
   \<and> py_in ''NSING'' ''NSINGle''
   \<and> \<not> py_in ''AVER'' ''NSINGle''
   \<and> (\<exists>w' evs. acquire segment_scope ''NSINGle'' 10 True 5000000 lab = Some (Inr True, w')
           \<and> trace w' = trace lab @ evs
           \<and> sent_args ''ACQ:NSIN:COUN {}'' evs = [[PInt 4]])"
proof -
  note W = segment_scope_behaves(5) and O = segment_scope_behaves(1)
    and P = segment_scope_answers(1) and C = segment_scope_answers(2)
    and S = segment_scope_answers(3)
  have nsing: "py_in ''NSING'' ''NSINGle''" and naver: "\<not> py_in ''AVER'' ''NSINGle''"
    by simp_all
  note inst = acquire_count_is_min
    [OF W O P C nsing naver, where N = 10 and auto = True and L = 5000000 and w = lab]
  have save: "\<not> save (self lab)" by (simp add: lab_def lab_session_def)
  from inst S save obtain w' where
    run: "acquire segment_scope ''NSINGle'' 10 True 5000000 lab = Some (Inr True, w')"
    by blast
  with inst obtain evs where
    "trace w' = trace lab @ evs" "sent_args ''ACQ:NSIN:COUN {}'' evs = [[PInt (min 10 4)]]"
    by blast
  with run W O P C nsing naver show ?thesis by simp
qed






end
